theory Spec2Isabelle
  imports Main "HOL-Library.Word"
begin

section \<open>The host's data, as far as pg\_ipm.c touches it\<close>

text \<open>
  \<^verbatim>\<open>pg_ipm.c\<close> is a loadable module of a database server. It installs
  \<^verbatim>\<open>sentinel_ExecutorRun\<close> as the executor's run hook; the hook drives
  \<^verbatim>\<open>ExecutePlan\<close>, a copy of the executor's row loop that adds a random
  offset to one integer column of the rows of one table.

  The C integers are words: \<^verbatim>\<open>Oid\<close> is an unsigned 32-bit value, \<^verbatim>\<open>int32\<close>
  a 32-bit value read as two's complement (\<open>sint\<close>), \<^verbatim>\<open>uint64\<close> and
  \<^verbatim>\<open>Datum\<close> 64-bit values. Arithmetic on them wraps around. The two configured
  C \<^verbatim>\<open>int\<close>s (\<^verbatim>\<open>relation_oid\<close>, \<^verbatim>\<open>col_no\<close>) are
  \<open>int\<close>s; the configuration keeps them within \<open>0 .. INT_MAX\<close>.
\<close>

type_synonym Oid = "32 word"
type_synonym int32 = "32 word"
type_synonym uint64 = "64 word"
type_synonym Datum = "64 word"
type_synonym MemoryContext = nat

datatype CmdType =
  CMD_UNKNOWN | CMD_SELECT | CMD_UPDATE | CMD_INSERT | CMD_DELETE | CMD_UTILITY | CMD_NOTHING

datatype ScanDirection =
  BackwardScanDirection | NoMovementScanDirection | ForwardScanDirection

text \<open>
  \<^verbatim>\<open>es_top_eflags\<close> is a bit set. The numeric values of its bits are the
  host's; the module only tests membership (\<^verbatim>\<open>flags & EXEC_FLAG_X\<close>),
  so the flags are a set of names.
\<close>

datatype eflag =
  EXEC_FLAG_EXPLAIN_ONLY | EXEC_FLAG_REWIND | EXEC_FLAG_BACKWARD | EXEC_FLAG_MARK

text \<open>
  A tuple slot: the table the row was read from and the two parallel arrays of the
  row's attributes, the values and their null flags.
\<close>

record TupleTableSlot =
  tts_tableOid :: Oid
  tts_values :: "Datum list"
  tts_isnull :: "bool list"

text \<open>The severities the module chooses between; a C static starts as zero.\<close>

datatype elevel_t = ELEVEL_ZERO | ERROR | FATAL

text \<open>Function pointers that can sit in the executor's run hook.\<close>

datatype ExecutorRun_hook_type = Sentinel_ExecutorRun | Foreign_ExecutorRun nat

text \<open>
  The ways control leaves the module other than by returning: a failed assertion, and
  the host's rejection of an attribute number that is not a column of the row.
\<close>

datatype error = FailedAssertion | InvalidAttributeNumber

text \<open>
  Every call the module makes into the host is logged, in order, so that theorems can
  speak about which calls happen, how often and in which order. The last two events
  are the two ways of running a statement through somebody else's code; no function of
  the module emits them.
\<close>

datatype event =
  E_MemoryContextSwitchTo MemoryContext
| E_InstrStartNode
| E_InstrStopNode uint64
| E_rStartup CmdType
| E_rShutdown
| E_EnterParallelMode
| E_ExitParallelMode
| E_ResetPerTupleExprContext
| E_ExecProcNode "TupleTableSlot option"
| E_ExecShutdownNode
| E_ExecFilterJunk
| E_receiveSlot TupleTableSlot bool
| E_call_hook ExecutorRun_hook_type
| E_standard_ExecutorRun

text \<open>
  The producer and the consumer are the host's. A plan node is given by the slots its
  successive \<^verbatim>\<open>ExecProcNode\<close> calls return (\<open>None\<close> is the null slot);
  the sequence may be infinite. A receiver is given by its answer to a slot, which may
  depend on the slots it has received before.
\<close>

record PlanState =
  next_tuple :: "nat \<Rightarrow> TupleTableSlot option"

record DestReceiver =
  receiveSlot :: "TupleTableSlot list \<Rightarrow> TupleTableSlot \<Rightarrow> bool"

record EState =
  es_direction :: ScanDirection
  es_processed :: uint64
  es_top_eflags :: "eflag set"
  es_junkFilter :: "(TupleTableSlot \<Rightarrow> TupleTableSlot) option"
  es_query_cxt :: MemoryContext

text \<open>
  The state of the world outside the module: how many rows the plan has been asked
  for, what the receiver has been sent, the C library's random generator
  (\<open>rand_seq k\<close> is what the \<open>k\<close>-th call of \<^verbatim>\<open>rand()\<close> returns after the
  \<^verbatim>\<open>srand(time(NULL))\<close> of this run; the C standard makes it non-negative),
  the current memory context, and the log.
\<close>

record host =
  pulled :: nat
  received :: "TupleTableSlot list"
  rand_seq :: "nat \<Rightarrow> nat"
  rand_calls :: nat
  CurrentMemoryContext :: MemoryContext
  trace :: "event list"

text \<open>
  A run that does not return leaves with an error and the host as it was at that
  moment.
\<close>

type_synonym failure = "error \<times> host"

record PlannedStmt =
  hasReturning :: bool
  parallelModeNeeded :: bool

record QueryDesc =
  qd_operation :: CmdType
  qd_plannedstmt :: PlannedStmt
  qd_dest :: DestReceiver
  qd_estate :: "EState option"
  qd_planstate :: PlanState
  qd_totaltime :: bool

text \<open>
  The module's statics, and the host's hook variable \<^verbatim>\<open>ExecutorRun_hook\<close>
  that \<^verbatim>\<open>_PG_init\<close> and \<^verbatim>\<open>_PG_fini\<close> assign.
\<close>

record globals =
  abort_statement_only :: bool
  relation_oid :: int
  col_no :: int
  elevel :: elevel_t
  prev_ExecutorRun_hook :: "ExecutorRun_hook_type option"
  ExecutorRun_hook :: "ExecutorRun_hook_type option"

section \<open>The host's functions and macros\<close>

text \<open>
  Modelled from the spec: the executor's functions that the module calls
  (\<^verbatim>\<open>ExecProcNode\<close>, \<^verbatim>\<open>ExecShutdownNode\<close>, \<^verbatim>\<open>ExecFilterJunk\<close>, the
  receiver's callbacks, \<^verbatim>\<open>MemoryContextSwitchTo\<close>, the instrumentation and
  parallel-mode calls) and the C library's \<^verbatim>\<open>srand\<close>, \<^verbatim>\<open>time\<close> and
  \<^verbatim>\<open>rand\<close> are not part of this repository. The spec words them as
  capabilities: a producer that is pulled for a row or the end of the stream and can
  be told to release its resources, a consumer that is started, accepts or declines
  each row, and is shut down, and a pseudorandom generator seeded once per run. A call
  changes the host's state as said with the record \<open>host\<close> and is logged.
\<close>

definition emit :: "event \<Rightarrow> host \<Rightarrow> host" where
  "emit e h = h\<lparr>trace := trace h @ [e]\<rparr>"

definition ExecProcNode :: "PlanState \<Rightarrow> host \<Rightarrow> TupleTableSlot option \<times> host" where
  "ExecProcNode planstate h =
     (let slot = next_tuple planstate (pulled h)
      in (slot, emit (E_ExecProcNode slot) (h\<lparr>pulled := pulled h + 1\<rparr>)))"

definition ExecShutdownNode :: "PlanState \<Rightarrow> host \<Rightarrow> host" where
  "ExecShutdownNode planstate h = emit E_ExecShutdownNode h"

definition ExecFilterJunk ::
  "(TupleTableSlot \<Rightarrow> TupleTableSlot) \<Rightarrow> TupleTableSlot \<Rightarrow> host \<Rightarrow> TupleTableSlot \<times> host" where
  "ExecFilterJunk junkfilter slot h = (junkfilter slot, emit E_ExecFilterJunk h)"

definition call_receiveSlot :: "DestReceiver \<Rightarrow> TupleTableSlot \<Rightarrow> host \<Rightarrow> bool \<times> host" where
  "call_receiveSlot dest slot h =
     (let ok = receiveSlot dest (received h) slot
      in (ok, emit (E_receiveSlot slot ok) (h\<lparr>received := received h @ [slot]\<rparr>)))"

definition MemoryContextSwitchTo :: "MemoryContext \<Rightarrow> host \<Rightarrow> MemoryContext \<times> host" where
  "MemoryContextSwitchTo cxt h =
     (CurrentMemoryContext h, emit (E_MemoryContextSwitchTo cxt) (h\<lparr>CurrentMemoryContext := cxt\<rparr>))"

text \<open>\<^verbatim>\<open>srand(time(NULL))\<close> restarts the generator; \<^verbatim>\<open>rand()\<close> draws from it.\<close>

definition srand_time :: "host \<Rightarrow> host" where
  "srand_time h = h\<lparr>rand_calls := 0\<rparr>"

definition rand :: "host \<Rightarrow> nat \<times> host" where
  "rand h = (rand_seq h (rand_calls h), h\<lparr>rand_calls := rand_calls h + 1\<rparr>)"

text \<open>
  Modelled from the spec: the macros \<^verbatim>\<open>DatumGetInt32\<close> and
  \<^verbatim>\<open>Int32GetDatum\<close> are the host's and are not part of this repository. The
  spec words them as reading the value at the monitored position as a signed integer
  and writing the replacement back into the attribute slot: \<^verbatim>\<open>DatumGetInt32\<close>
  keeps the low 32 bits of a datum, \<^verbatim>\<open>Int32GetDatum\<close> widens a signed 32-bit
  value to a datum (the C conversion of a signed value to the unsigned
  \<^verbatim>\<open>uintptr_t\<close>).
\<close>

definition DatumGetInt32 :: "Datum \<Rightarrow> int32" where
  "DatumGetInt32 d = ucast d"

definition Int32GetDatum :: "int32 \<Rightarrow> Datum" where
  "Int32GetDatum x = scast x"

text \<open>
  Modelled from the spec: \<^verbatim>\<open>slot_getattr\<close> is the host's and is not part of this
  repository. The spec words it as reading the value at a 1-based position of the row
  together with its null flag. For a position that is not a column of the row the host
  gives no value (it raises, or the access would be outside the slot's arrays): the
  model returns the error.
\<close>

definition slot_getattr :: "TupleTableSlot \<Rightarrow> int \<Rightarrow> error + (Datum \<times> bool)" where
  "slot_getattr slot attnum =
     (if 1 \<le> attnum \<and> attnum \<le> int (length (tts_values slot))
         \<and> attnum \<le> int (length (tts_isnull slot))
      then Inr (tts_values slot ! nat (attnum - 1), tts_isnull slot ! nat (attnum - 1))
      else Inl InvalidAttributeNumber)"

text \<open>
  Modelled from the spec: the \<^verbatim>\<open>Assert\<close> macro is the host's and is not part of
  this repository. The spec words a violated assertion of the hook as a refusal to run
  that signals a usage error upstream: an assertion whose condition is false yields the
  error, a true one nothing.
\<close>

definition Assert :: "bool \<Rightarrow> error option" where
  "Assert c = (if c then None else Some FailedAssertion)"

text \<open>
  Modelled from the spec: \<^verbatim>\<open>DefineCustomIntVariable\<close> is the host's and is not
  part of this repository. The spec words the two settings as integers with the
  disabled default 0, read once at initialization: the variable gets the configured
  value when one is given within the declared bounds, and the boot value otherwise.
\<close>

definition DefineCustomIntVariable ::
  "(string \<Rightarrow> int option) \<Rightarrow> string \<Rightarrow> int \<Rightarrow> int \<Rightarrow> int \<Rightarrow> int" where
  "DefineCustomIntVariable conf name bootValue minValue maxValue =
     (case conf name of
        None \<Rightarrow> bootValue
      | Some v \<Rightarrow> if minValue \<le> v \<and> v \<le> maxValue then v else bootValue)"

text \<open>The largest C \<^verbatim>\<open>int\<close>, the upper bound of both settings.\<close>

definition INT_MAX :: int where
  "INT_MAX = 2147483647"

section \<open>ExecutePlan\<close>

text \<open>
  Lines 125 to 137: the row is matched by the table it was read from; the attribute at
  \<^verbatim>\<open>col_no\<close> is read, \<^verbatim>\<open>rand() % (5 - (-5) + 1) + (-5)\<close> is added to
  it as a 32-bit integer, and the sum is written back to \<^verbatim>\<open>tts_values[col_no-1]\<close>.
  The null flag that \<^verbatim>\<open>slot_getattr\<close> reports is not looked at. The comparison
  of the unsigned \<^verbatim>\<open>tts_tableOid\<close> with the \<^verbatim>\<open>int\<close>
  \<^verbatim>\<open>relation_oid\<close> converts the latter to unsigned (\<open>word_of_int\<close>);
  \<^verbatim>\<open>rand()\<close> is not negative, so C's \<^verbatim>\<open>%\<close> is \<open>mod\<close> here.
\<close>

definition tamper ::
  "globals \<Rightarrow> TupleTableSlot \<Rightarrow> host \<Rightarrow> failure + (TupleTableSlot \<times> host)" where
  "tamper g slot h =
     (if tts_tableOid slot = word_of_int (relation_oid g) then
        (case slot_getattr slot (col_no g) of
           Inl e \<Rightarrow> Inl (e, h)
         | Inr (datum, isnull) \<Rightarrow>
             (let col_val = DatumGetInt32 datum;
                  (r, h) = rand h;
                  col_val = col_val + word_of_int (int r mod (5 - (-5) + 1) + (-5))
              in Inr (slot\<lparr>tts_values :=
                         (tts_values slot)[nat (col_no g - 1) := Int32GetDatum col_val]\<rparr>, h)))
      else Inr (slot, h))"

text \<open>
  The state of the loop: the executor state, the host, and the local
  \<^verbatim>\<open>current_tuple_count\<close>.
\<close>

record loop_state =
  ls_estate :: EState
  ls_host :: host
  current_tuple_count :: uint64

text \<open>
  One pass of the loop body for a slot that is not null (lines 115 to 166). The
  result says whether the loop goes on (\<open>True\<close>) or was left by a
  \<^verbatim>\<open>break\<close>.
\<close>

definition ExecutePlan_tuple ::
  "globals \<Rightarrow> CmdType \<Rightarrow> bool \<Rightarrow> uint64 \<Rightarrow> DestReceiver \<Rightarrow> TupleTableSlot \<Rightarrow> loop_state
     \<Rightarrow> failure + (bool \<times> loop_state)" where
  "ExecutePlan_tuple g operation sendTuples numberTuples dest slot s =
     (let estate = ls_estate s; h = ls_host s;
          (slot, h) = (case es_junkFilter estate of
                         None \<Rightarrow> (slot, h)
                       | Some junkfilter \<Rightarrow> ExecFilterJunk junkfilter slot h)
      in case (if operation = CMD_SELECT then
                 (case tamper g slot h of
                    Inl e \<Rightarrow> Inl e
                  | Inr (slot, h) \<Rightarrow>
                      Inr (slot, h, estate\<lparr>es_processed := es_processed estate + 1\<rparr>))
               else Inr (slot, h, estate)) of
           Inl e \<Rightarrow> Inl e
         | Inr (slot, h, estate) \<Rightarrow>
             (let (ok, h) = (if sendTuples then call_receiveSlot dest slot h else (True, h))
              in if \<not> ok then Inr (False, s\<lparr>ls_estate := estate, ls_host := h\<rparr>)
                 else
                   (let n = current_tuple_count s + 1
                    in Inr (\<not> (numberTuples \<noteq> 0 \<and> numberTuples = n),
                            \<lparr>ls_estate = estate, ls_host = h, current_tuple_count = n\<rparr>))))"

text \<open>
  The loop \<^verbatim>\<open>for (;;)\<close> of lines 86 to 167. It may run forever (a plan can
  yield rows without end), so it is a partial function: \<open>None\<close> is not returning.
\<close>

partial_function (option) ExecutePlan_loop ::
  "globals \<Rightarrow> PlanState \<Rightarrow> CmdType \<Rightarrow> bool \<Rightarrow> uint64 \<Rightarrow> DestReceiver \<Rightarrow> loop_state
     \<Rightarrow> (failure + loop_state) option" where
  "ExecutePlan_loop g planstate operation sendTuples numberTuples dest s =
     (let h = emit E_ResetPerTupleExprContext (ls_host s);
          (slot, h) = ExecProcNode planstate h
      in case slot of
           None \<Rightarrow> Some (Inr (s\<lparr>ls_host := ExecShutdownNode planstate h\<rparr>))
         | Some slot \<Rightarrow>
             (case ExecutePlan_tuple g operation sendTuples numberTuples dest slot
                     (s\<lparr>ls_host := h\<rparr>) of
                Inl e \<Rightarrow> Some (Inl e)
              | Inr (continue, s) \<Rightarrow>
                  if continue
                  then ExecutePlan_loop g planstate operation sendTuples numberTuples dest s
                  else Some (Inr s)))"

definition ExecutePlan ::
  "globals \<Rightarrow> EState \<Rightarrow> PlanState \<Rightarrow> bool \<Rightarrow> CmdType \<Rightarrow> bool \<Rightarrow> uint64 \<Rightarrow> ScanDirection
     \<Rightarrow> DestReceiver \<Rightarrow> host \<Rightarrow> (failure + (EState \<times> host)) option" where
  "ExecutePlan g estate planstate use_parallel_mode operation sendTuples numberTuples
       direction dest h =
     (let estate = estate\<lparr>es_direction := direction\<rparr>;
          use_parallel_mode = (if numberTuples \<noteq> 0 then False else use_parallel_mode);
          h = (if use_parallel_mode then emit E_EnterParallelMode h else h);
          h = srand_time h;
          (r, h) = rand h
      in case ExecutePlan_loop g planstate operation sendTuples numberTuples dest
                \<lparr>ls_estate = estate, ls_host = h, current_tuple_count = 0\<rparr> of
           None \<Rightarrow> None
         | Some (Inl e) \<Rightarrow> Some (Inl e)
         | Some (Inr s) \<Rightarrow>
             (let estate = ls_estate s; h = ls_host s;
                  h = (if EXEC_FLAG_BACKWARD \<notin> es_top_eflags estate
                       then ExecShutdownNode planstate h else h);
                  h = (if use_parallel_mode then emit E_ExitParallelMode h else h)
              in Some (Inr (estate, h))))"

section \<open>Module load and unload\<close>

text \<open>
  \<^verbatim>\<open>_PG_init\<close> (lines 184 to 227) and \<^verbatim>\<open>_PG_fini\<close> (lines 232 to
  237), on the module's statics; \<open>conf\<close> is what the configuration file gives for
  a setting's name.
\<close>

definition PG_init :: "(string \<Rightarrow> int option) \<Rightarrow> globals \<Rightarrow> globals" where
  "PG_init conf g =
     (let g = g\<lparr>relation_oid :=
                   DefineCustomIntVariable conf ''pg_sentinel.relation_oid'' 0 0 INT_MAX\<rparr>;
          g = g\<lparr>col_no := DefineCustomIntVariable conf ''pg_sentinel.column_no'' 0 0 INT_MAX\<rparr>;
          g = g\<lparr>prev_ExecutorRun_hook := ExecutorRun_hook g\<rparr>;
          g = g\<lparr>ExecutorRun_hook := Some Sentinel_ExecutorRun\<rparr>
      in if abort_statement_only g then g\<lparr>elevel := ERROR\<rparr> else g\<lparr>elevel := FATAL\<rparr>)"

definition PG_fini :: "globals \<Rightarrow> globals" where
  "PG_fini g = g\<lparr>ExecutorRun_hook := prev_ExecutorRun_hook g\<rparr>"

section \<open>The hook\<close>

text \<open>
  \<^verbatim>\<open>sentinel_ExecutorRun\<close> (lines 239 to 306). A null pointer is \<open>None\<close>;
  the branches for \<open>None\<close> that follow the assertion of the same pointer are never
  taken. \<^verbatim>\<open>queryDesc->totaltime\<close> is only tested for being there, so it is a
  truth value.
\<close>

definition sentinel_ExecutorRun ::
  "globals \<Rightarrow> QueryDesc option \<Rightarrow> ScanDirection \<Rightarrow> uint64 \<Rightarrow> bool \<Rightarrow> host
     \<Rightarrow> (failure + (EState \<times> host)) option" where
  "sentinel_ExecutorRun g queryDesc direction count execute_once h =
     (case Assert (queryDesc \<noteq> None) of
        Some e \<Rightarrow> Some (Inl (e, h))
      | None \<Rightarrow>
     (case queryDesc of
        None \<Rightarrow> Some (Inl (FailedAssertion, h))
      | Some qd \<Rightarrow>
     (case Assert (qd_estate qd \<noteq> None) of
        Some e \<Rightarrow> Some (Inl (e, h))
      | None \<Rightarrow>
     (case qd_estate qd of
        None \<Rightarrow> Some (Inl (FailedAssertion, h))
      | Some estate \<Rightarrow>
     (case Assert (EXEC_FLAG_EXPLAIN_ONLY \<notin> es_top_eflags estate) of
        Some e \<Rightarrow> Some (Inl (e, h))
      | None \<Rightarrow>
     (let (oldcontext, h) = MemoryContextSwitchTo (es_query_cxt estate) h;
          h = (if qd_totaltime qd then emit E_InstrStartNode h else h);
          operation = qd_operation qd;
          dest = qd_dest qd;
          estate = estate\<lparr>es_processed := 0\<rparr>;
          sendTuples = (operation = CMD_SELECT \<or> hasReturning (qd_plannedstmt qd));
          h = (if sendTuples then emit (E_rStartup operation) h else h)
      in case (if direction \<noteq> NoMovementScanDirection
               then ExecutePlan g estate (qd_planstate qd)
                      (parallelModeNeeded (qd_plannedstmt qd)) operation sendTuples count
                      direction dest h
               else Some (Inr (estate, h))) of
           None \<Rightarrow> None
         | Some (Inl e) \<Rightarrow> Some (Inl e)
         | Some (Inr (estate, h)) \<Rightarrow>
             (let h = (if sendTuples then emit E_rShutdown h else h);
                  h = (if qd_totaltime qd then emit (E_InstrStopNode (es_processed estate)) h
                       else h);
                  (cxt, h) = MemoryContextSwitchTo oldcontext h
              in Some (Inr (estate, h)))))))))"

section \<open>Vocabulary of the theorems\<close>

text \<open>
  The slot the loop inspects is the pulled slot after the junk filter, when the
  executor state has one.
\<close>

definition junk_filtered :: "EState \<Rightarrow> TupleTableSlot \<Rightarrow> TupleTableSlot" where
  "junk_filtered estate slot =
     (case es_junkFilter estate of None \<Rightarrow> slot | Some junkfilter \<Rightarrow> junkfilter slot)"

text \<open>The match test of line 125.\<close>

definition from_monitored_relation :: "globals \<Rightarrow> TupleTableSlot \<Rightarrow> bool" where
  "from_monitored_relation g slot = (tts_tableOid slot = word_of_int (relation_oid g))"

text \<open>The configured position is a column of the row.\<close>

definition has_monitored_column :: "globals \<Rightarrow> TupleTableSlot \<Rightarrow> bool" where
  "has_monitored_column g slot =
     (1 \<le> col_no g \<and> col_no g \<le> int (length (tts_values slot))
        \<and> col_no g \<le> int (length (tts_isnull slot)))"

text \<open>
  The perturbation step returns for the row: the statement is not a read, or the row is
  not of the monitored relation, or the monitored position is one of its columns.
\<close>

definition perturbable :: "globals \<Rightarrow> CmdType \<Rightarrow> TupleTableSlot \<Rightarrow> bool" where
  "perturbable g operation slot =
     (operation \<noteq> CMD_SELECT \<or> \<not> from_monitored_relation g slot \<or> has_monitored_column g slot)"

text \<open>The 32-bit integer at the configured position.\<close>

definition monitored_value :: "globals \<Rightarrow> TupleTableSlot \<Rightarrow> int32" where
  "monitored_value g slot = DatumGetInt32 (tts_values slot ! nat (col_no g - 1))"

text \<open>The offset the next call of \<^verbatim>\<open>rand()\<close> produces in line 132.\<close>

definition noise :: "host \<Rightarrow> int" where
  "noise h = int (rand_seq h (rand_calls h)) mod 11 - 5"

text \<open>The calls logged between two states of the host.\<close>

definition new_events :: "host \<Rightarrow> host \<Rightarrow> event list" where
  "new_events h h' = drop (length (trace h)) (trace h')"

text \<open>The host at the end of a run, however the run ended.\<close>

definition final_host :: "failure + EState \<times> host \<Rightarrow> host" where
  "final_host r = (case r of Inl (e, h) \<Rightarrow> h | Inr (estate, h) \<Rightarrow> h)"

text \<open>The events a pass of the loop body can log.\<close>

fun body_event :: "event \<Rightarrow> bool" where
  "body_event E_ResetPerTupleExprContext = True"
| "body_event (E_ExecProcNode (Some slot)) = True"
| "body_event E_ExecFilterJunk = True"
| "body_event (E_receiveSlot slot ok) = True"
| "body_event e = False"

text \<open>Handing the statement to another hook or to the host's own executor.\<close>

fun delegation :: "event \<Rightarrow> bool" where
  "delegation (E_call_hook f) = True"
| "delegation E_standard_ExecutorRun = True"
| "delegation e = False"

text \<open>
  What the caller and the receiver see of one pass of the loop body and of a whole
  run: the error, or whether the loop goes on, the counter of processed rows and the
  rows handed to the receiver; for a run also the number of pulls and the log.
\<close>

definition tuple_outcome ::
  "failure + bool \<times> loop_state \<Rightarrow> error + bool \<times> uint64 \<times> TupleTableSlot list" where
  "tuple_outcome r =
     (case r of
        Inl (e, h) \<Rightarrow> Inl e
      | Inr (continue, s) \<Rightarrow> Inr (continue, es_processed (ls_estate s), received (ls_host s)))"

definition run_outcome ::
  "(failure + EState \<times> host) option
     \<Rightarrow> (error + uint64 \<times> TupleTableSlot list \<times> nat \<times> event list) option" where
  "run_outcome r =
     (case r of
        None \<Rightarrow> None
      | Some (Inl (e, h)) \<Rightarrow> Some (Inl e)
      | Some (Inr (estate, h)) \<Rightarrow>
          Some (Inr (es_processed estate, received h, pulled h, trace h)))"

text \<open>The host after the junk filter of the loop body has run, when there is one.\<close>

definition after_junk_filter :: "loop_state \<Rightarrow> host" where
  "after_junk_filter s =
     (case es_junkFilter (ls_estate s) of
        None \<Rightarrow> ls_host s
      | Some junkfilter \<Rightarrow> emit E_ExecFilterJunk (ls_host s))"

text \<open>The host at the end of the loop, and the loop state after a pull.\<close>

definition loop_host :: "failure + loop_state \<Rightarrow> host" where
  "loop_host r = (case r of Inl (e, h) \<Rightarrow> h | Inr s \<Rightarrow> ls_host s)"

definition after_pull :: "PlanState \<Rightarrow> loop_state \<Rightarrow> loop_state" where
  "after_pull planstate s =
     s\<lparr>ls_host := snd (ExecProcNode planstate (emit E_ResetPerTupleExprContext (ls_host s)))\<rparr>"

text \<open>The host at the end of one pass of the loop body.\<close>

definition tuple_host :: "failure + bool \<times> loop_state \<Rightarrow> host" where
  "tuple_host r = (case r of Inl (e, h) \<Rightarrow> h | Inr (continue, s) \<Rightarrow> ls_host s)"

text \<open>
  \<^verbatim>\<open>ExecutePlan\<close> around its loop: the state in which the loop is entered
  (lines 58 to 81) and what is done after it (lines 173 to 177).
\<close>

definition loop_entry :: "EState \<Rightarrow> bool \<Rightarrow> uint64 \<Rightarrow> ScanDirection \<Rightarrow> host \<Rightarrow> loop_state" where
  "loop_entry estate use_parallel_mode numberTuples direction h =
     \<lparr>ls_estate = estate\<lparr>es_direction := direction\<rparr>,
      ls_host = snd (rand (srand_time
                  (if numberTuples = 0 \<and> use_parallel_mode then emit E_EnterParallelMode h
                   else h))),
      current_tuple_count = 0\<rparr>"

definition loop_exit :: "PlanState \<Rightarrow> bool \<Rightarrow> uint64 \<Rightarrow> loop_state \<Rightarrow> EState \<times> host" where
  "loop_exit planstate use_parallel_mode numberTuples s =
     (ls_estate s,
      (let h = (if EXEC_FLAG_BACKWARD \<in> es_top_eflags (ls_estate s) then ls_host s
                else ExecShutdownNode planstate (ls_host s))
       in if numberTuples = 0 \<and> use_parallel_mode then emit E_ExitParallelMode h else h))"


text \<open>The log of a run that returned; empty for any other run.\<close>

definition run_trace :: "(failure + EState \<times> host) option \<Rightarrow> event list" where
  "run_trace r = (case r of Some (Inr (estate, h)) \<Rightarrow> trace h | _ \<Rightarrow> [])"

text \<open>
  The hook around its call of \<^verbatim>\<open>ExecutePlan\<close>: whether rows are sent, the host
  once the receiver has been started (lines 260 to 281), and what is done after the
  run (lines 299 to 305).
\<close>

definition sends_tuples :: "QueryDesc \<Rightarrow> bool" where
  "sends_tuples qd = (qd_operation qd = CMD_SELECT \<or> hasReturning (qd_plannedstmt qd))"

definition hook_entry :: "QueryDesc \<Rightarrow> EState \<Rightarrow> host \<Rightarrow> host" where
  "hook_entry qd estate h =
     (let h = snd (MemoryContextSwitchTo (es_query_cxt estate) h);
          h = (if qd_totaltime qd then emit E_InstrStartNode h else h)
      in if sends_tuples qd then emit (E_rStartup (qd_operation qd)) h else h)"

definition hook_exit :: "QueryDesc \<Rightarrow> MemoryContext \<Rightarrow> EState \<times> host \<Rightarrow> EState \<times> host" where
  "hook_exit qd oldcontext r =
     (let estate = fst r; h = snd r;
          h = (if sends_tuples qd then emit E_rShutdown h else h);
          h = (if qd_totaltime qd then emit (E_InstrStopNode (es_processed estate)) h else h)
      in (estate, snd (MemoryContextSwitchTo oldcontext h)))"

section \<open>Concrete inputs\<close>

text \<open>
  The scenario of the specification: relation 17, column 2, rows of relation 17 and of
  relation 42. The statics start as zeros; the configuration file names the two
  settings.
\<close>

definition boot_globals :: globals where
  "boot_globals =
     \<lparr>abort_statement_only = False, relation_oid = 0, col_no = 0, elevel = ELEVEL_ZERO,
      prev_ExecutorRun_hook = None, ExecutorRun_hook = None\<rparr>"

definition scenario_conf :: "string \<Rightarrow> int option" where
  "scenario_conf name =
     (if name = ''pg_sentinel.relation_oid'' then Some 17
      else if name = ''pg_sentinel.column_no'' then Some 2 else None)"


definition scenario_globals :: globals where
  "scenario_globals = PG_init scenario_conf boot_globals"

definition row_17_a :: TupleTableSlot where
  "row_17_a = \<lparr>tts_tableOid = 17, tts_values = [1, 100], tts_isnull = [False, False]\<rparr>"

definition row_17_b :: TupleTableSlot where
  "row_17_b = \<lparr>tts_tableOid = 17, tts_values = [2, 200], tts_isnull = [False, False]\<rparr>"

text \<open>
  Rows of relation 17 with a null and with the largest integer at column 2, and a row
  that was not read straight from a table: its origin identifier is 0.
\<close>

definition row_17_null :: TupleTableSlot where
  "row_17_null = \<lparr>tts_tableOid = 17, tts_values = [4, 0], tts_isnull = [False, True]\<rparr>"

definition row_17_max :: TupleTableSlot where
  "row_17_max = \<lparr>tts_tableOid = 17, tts_values = [5, 2147483647], tts_isnull = [False, False]\<rparr>"

definition row_42 :: TupleTableSlot where
  "row_42 = \<lparr>tts_tableOid = 42, tts_values = [3, 300], tts_isnull = [False, False]\<rparr>"


text \<open>A plan that yields the rows of a list and then the null slot.\<close>

definition rows_of :: "TupleTableSlot list \<Rightarrow> PlanState" where
  "rows_of xs = \<lparr>next_tuple = (\<lambda>n. if n < length xs then Some (xs ! n) else None)\<rparr>"

text \<open>A plan that never runs out of rows.\<close>

definition endless :: "TupleTableSlot \<Rightarrow> PlanState" where
  "endless slot = \<lparr>next_tuple = (\<lambda>n. Some slot)\<rparr>"

text \<open>A receiver that takes every row, and one that declines its \<open>k\<close>-th row.\<close>

definition accept_all :: DestReceiver where
  "accept_all = \<lparr>receiveSlot = (\<lambda>hist slot. True)\<rparr>"

definition decline_at :: "nat \<Rightarrow> DestReceiver" where
  "decline_at k = \<lparr>receiveSlot = (\<lambda>hist slot. length hist + 1 < k)\<rparr>"

definition scenario_estate :: EState where
  "scenario_estate =
     \<lparr>es_direction = ForwardScanDirection, es_processed = 0, es_top_eflags = {},
      es_junkFilter = None, es_query_cxt = 1\<rparr>"

text \<open>A generator whose \<open>k\<close>-th value is \<open>10 * k + 3\<close>: offsets -2, -3, -4, ...\<close>

definition scenario_host :: host where
  "scenario_host =
     \<lparr>pulled = 0, received = [], rand_seq = (\<lambda>k. 10 * k + 3), rand_calls = 0,
      CurrentMemoryContext = 0, trace = []\<rparr>"

text \<open>A generator that always returns 10: the offset is always 5.\<close>

definition host_rand_10 :: host where
  "host_rand_10 = scenario_host\<lparr>rand_seq := (\<lambda>k. 10)\<rparr>"

definition scenario_loop_state :: loop_state where
  "scenario_loop_state =
     \<lparr>ls_estate = scenario_estate, ls_host = scenario_host, current_tuple_count = 0\<rparr>"


definition explain_only_estate :: EState where
  "explain_only_estate = scenario_estate\<lparr>es_top_eflags := {EXEC_FLAG_EXPLAIN_ONLY}\<rparr>"

text \<open>
  The statics at load time when another module has already put its hook into
  \<^verbatim>\<open>ExecutorRun_hook\<close>, and the module's globals after its own load.
\<close>

definition layered_boot_globals :: globals where
  "layered_boot_globals = boot_globals\<lparr>ExecutorRun_hook := Some (Foreign_ExecutorRun 7)\<rparr>"

definition layered_globals :: globals where
  "layered_globals = PG_init scenario_conf layered_boot_globals"

text \<open>A read statement over the rows of a list, with instrumentation.\<close>

definition scenario_query :: "TupleTableSlot list \<Rightarrow> QueryDesc" where
  "scenario_query xs =
     \<lparr>qd_operation = CMD_SELECT,
      qd_plannedstmt = \<lparr>hasReturning = False, parallelModeNeeded = False\<rparr>,
      qd_dest = accept_all, qd_estate = Some scenario_estate,
      qd_planstate = rows_of xs, qd_totaltime = True\<rparr>"

section \<open>Facts about the host's macros and the machine integers\<close>

lemma DatumGetInt32_Int32GetDatum: "DatumGetInt32 (Int32GetDatum x) = x"
  unfolding DatumGetInt32_def Int32GetDatum_def
  by (rule bit_word_eqI) (auto simp add: bit_ucast_iff bit_signed_iff bit_simps)

lemma noise_range: "- 5 \<le> noise h \<and> noise h \<le> 5"
  unfolding noise_def by presburger

lemma sint_add_small:
  fixes x :: int32
  assumes "- 2147483648 \<le> sint x + d" "sint x + d \<le> 2147483647"
  shows "sint (x + word_of_int d) = sint x + d"
proof -
  have "x + word_of_int d = word_of_int (sint x + d)"
    by simp
  then have "sint (x + word_of_int d) = signed_take_bit (LENGTH(32) - 1) (sint x + d)"
    by (simp only: sint_sbintrunc')
  also have "\<dots> = sint x + d"
    using assms by (intro signed_take_bit_int_eq_self) simp_all
  finally show ?thesis .
qed

lemma unat_succ_below:
  fixes c q :: uint64
  assumes "unat c < unat q"
  shows "unat (c + 1) = unat c + 1"
proof -
  have "unat q < 2 ^ 64" using unsigned_less[of q] by simp
  with assms have "unat c + unat (1::uint64) < 2 ^ LENGTH(64)" by simp
  then have "unat (c + 1) = unat c + unat (1::uint64)"
    by (simp only: unat_add_lem[THEN iffD1])
  then show ?thesis by simp
qed

section \<open>The perturbation of one row\<close>

lemma tamper_matching:
  assumes "from_monitored_relation g slot" "has_monitored_column g slot"
  shows "tamper g slot h =
           Inr (slot\<lparr>tts_values := (tts_values slot)[nat (col_no g - 1) :=
                  Int32GetDatum (monitored_value g slot + word_of_int (noise h))]\<rparr>,
                h\<lparr>rand_calls := rand_calls h + 1\<rparr>)"
  using assms
  by (simp add: tamper_def from_monitored_relation_def has_monitored_column_def slot_getattr_def
        monitored_value_def noise_def rand_def Let_def)

lemma tamper_other:
  assumes "\<not> from_monitored_relation g slot"
  shows "tamper g slot h = Inr (slot, h)"
  using assms by (simp add: tamper_def from_monitored_relation_def)

lemma monitored_value_update:
  assumes "has_monitored_column g slot"
  shows "monitored_value g
           (slot\<lparr>tts_values := (tts_values slot)[nat (col_no g - 1) := Int32GetDatum v]\<rparr>) = v"
proof -
  from assms have "nat (col_no g - 1) < length (tts_values slot)"
    unfolding has_monitored_column_def by linarith
  then show ?thesis
    by (simp add: monitored_value_def DatumGetInt32_Int32GetDatum)
qed

section \<open>One pass of the loop body\<close>

text \<open>
  For a read statement that sends its rows, a pass of the body whose perturbation step
  returns counts the row, hands it to the receiver, and goes on unless the receiver
  declines or the quota is reached.
\<close>

lemma tamper_host:
  "(\<exists>e. tamper g slot h = Inl (e, h))
   \<or> (\<exists>out. tamper g slot h = Inr (out, h))
   \<or> (\<exists>out. tamper g slot h = Inr (out, h\<lparr>rand_calls := rand_calls h + 1\<rparr>))"
  by (cases "slot_getattr slot (col_no g)")
     (auto simp: tamper_def rand_def Let_def)

text \<open>The body in stages: junk filter, perturbation and counting, sending, quota.\<close>

lemma ExecutePlan_tuple_stages:
  "ExecutePlan_tuple g operation sendTuples numberTuples dest slot s =
     (case (if operation = CMD_SELECT
            then tamper g (junk_filtered (ls_estate s) slot) (after_junk_filter s)
            else Inr (junk_filtered (ls_estate s) slot, after_junk_filter s)) of
        Inl e \<Rightarrow> Inl e
      | Inr (out, h) \<Rightarrow>
          (let estate = (if operation = CMD_SELECT
                         then (ls_estate s)\<lparr>es_processed := es_processed (ls_estate s) + 1\<rparr>
                         else ls_estate s);
               ok = (if sendTuples then receiveSlot dest (received h) out else True);
               h = (if sendTuples
                    then emit (E_receiveSlot out ok) (h\<lparr>received := received h @ [out]\<rparr>)
                    else h)
           in if ok
              then Inr (\<not> (numberTuples \<noteq> 0 \<and> numberTuples = current_tuple_count s + 1),
                        \<lparr>ls_estate = estate, ls_host = h,
                         current_tuple_count = current_tuple_count s + 1\<rparr>)
              else Inr (False, s\<lparr>ls_estate := estate, ls_host := h\<rparr>)))"
proof (cases "es_junkFilter (ls_estate s)")
  case None
  then show ?thesis
    by (simp add: ExecutePlan_tuple_def junk_filtered_def after_junk_filter_def
          call_receiveSlot_def Let_def split: sum.splits prod.splits)
next
  case (Some junkfilter)
  then show ?thesis
    by (simp add: ExecutePlan_tuple_def junk_filtered_def after_junk_filter_def ExecFilterJunk_def
          call_receiveSlot_def Let_def split: sum.splits prod.splits)
qed


lemma after_junk_filter_simps:
  "\<exists>evs. trace (after_junk_filter s) = trace (ls_host s) @ evs \<and> list_all body_event evs"
  "pulled (after_junk_filter s) = pulled (ls_host s)"
  "received (after_junk_filter s) = received (ls_host s)"
  "rand_calls (after_junk_filter s) = rand_calls (ls_host s)"
  "rand_seq (after_junk_filter s) = rand_seq (ls_host s)"
  by (simp_all add: after_junk_filter_def emit_def split: option.splits)

lemma tuple_trace:
  "\<exists>evs. trace (tuple_host (ExecutePlan_tuple g operation sendTuples numberTuples dest slot s))
            = trace (ls_host s) @ evs \<and> list_all body_event evs"
proof -
  obtain evs where j: "trace (after_junk_filter s) = trace (ls_host s) @ evs"
    "list_all body_event evs"
    using after_junk_filter_simps(1) by blast
  let ?slot = "junk_filtered (ls_estate s) slot"
  let ?h = "after_junk_filter s"
  consider (err) e where "tamper g ?slot ?h = Inl (e, ?h)"
    | (same) out where "tamper g ?slot ?h = Inr (out, ?h)"
    | (drawn) out where "tamper g ?slot ?h = Inr (out, ?h\<lparr>rand_calls := rand_calls ?h + 1\<rparr>)"
    using tamper_host[of g ?slot ?h] by blast
  then show ?thesis
  proof cases
    case err
    with j show ?thesis
      by (auto simp: ExecutePlan_tuple_stages tuple_host_def emit_def Let_def)
  next
    case same
    with j show ?thesis
      by (auto simp: ExecutePlan_tuple_stages tuple_host_def emit_def Let_def)
  next
    case drawn
    with j show ?thesis
      by (auto simp: ExecutePlan_tuple_stages tuple_host_def emit_def Let_def)
  qed
qed

lemma tuple_estate:
  assumes "ExecutePlan_tuple g operation sendTuples numberTuples dest slot s = Inr (c, s')"
  shows "es_top_eflags (ls_estate s') = es_top_eflags (ls_estate s)"
    and "es_junkFilter (ls_estate s') = es_junkFilter (ls_estate s)"
  using assms
  by (auto simp: ExecutePlan_tuple_stages Let_def split: sum.splits if_splits prod.splits)


lemma tamper_perturbable:
  assumes "\<not> from_monitored_relation g slot \<or> has_monitored_column g slot"
  shows "\<exists>out k. tamper g slot h = Inr (out, h\<lparr>rand_calls := k\<rparr>)"
proof (cases "from_monitored_relation g slot")
  case True
  with assms tamper_matching[of g slot h] show ?thesis by auto
next
  case False
  from tamper_other[OF this, of h] have "tamper g slot h = Inr (slot, h\<lparr>rand_calls := rand_calls h\<rparr>)"
    by simp
  then show ?thesis by blast
qed

lemma tuple_forwards:
  assumes "perturbable g operation (junk_filtered (ls_estate s) slot)"
  shows "\<exists>out s'.
           ExecutePlan_tuple g operation True numberTuples dest slot s
             = Inr (receiveSlot dest (received (ls_host s)) out
                      \<and> \<not> (numberTuples \<noteq> 0 \<and> numberTuples = current_tuple_count s + 1), s')
         \<and> received (ls_host s') = received (ls_host s) @ [out]
         \<and> pulled (ls_host s') = pulled (ls_host s)
         \<and> es_junkFilter (ls_estate s') = es_junkFilter (ls_estate s)
         \<and> (receiveSlot dest (received (ls_host s)) out
               \<longrightarrow> current_tuple_count s' = current_tuple_count s + 1)"
proof -
  let ?slot = "junk_filtered (ls_estate s) slot"
  let ?h = "after_junk_filter s"
  have "\<exists>out k. (if operation = CMD_SELECT then tamper g ?slot ?h else Inr (?slot, ?h))
           = Inr (out, ?h\<lparr>rand_calls := k\<rparr>)"
  proof (cases "operation = CMD_SELECT")
    case True
    with assms have "\<not> from_monitored_relation g ?slot \<or> has_monitored_column g ?slot"
      by (simp add: perturbable_def)
    from tamper_perturbable[OF this, of ?h] True show ?thesis by simp
  next
    case False
    have "?h = ?h\<lparr>rand_calls := rand_calls ?h\<rparr>" by simp
    then have "\<exists>k. ?h = ?h\<lparr>rand_calls := k\<rparr>" by (rule exI)
    with False show ?thesis by simp
  qed
  then obtain out k where
    t: "(if operation = CMD_SELECT then tamper g ?slot ?h else Inr (?slot, ?h))
           = Inr (out, ?h\<lparr>rand_calls := k\<rparr>)" by blast
  show ?thesis
    unfolding ExecutePlan_tuple_stages t
    by (auto simp add: Let_def after_junk_filter_simps emit_def)
qed


lemma ExecutePlan_tuple_select:
  assumes "tamper g (junk_filtered (ls_estate s) slot) (after_junk_filter s) = Inr (out, h)"
  shows "ExecutePlan_tuple g CMD_SELECT True numberTuples dest slot s =
     (let ok = receiveSlot dest (received h) out;
          estate = (ls_estate s)\<lparr>es_processed := es_processed (ls_estate s) + 1\<rparr>;
          h = emit (E_receiveSlot out ok) (h\<lparr>received := received h @ [out]\<rparr>)
      in if ok then Inr (\<not> (numberTuples \<noteq> 0 \<and> numberTuples = current_tuple_count s + 1),
                         \<lparr>ls_estate = estate, ls_host = h,
                          current_tuple_count = current_tuple_count s + 1\<rparr>)
         else Inr (False, s\<lparr>ls_estate := estate, ls_host := h\<rparr>))"
  using assms
  by (simp add: ExecutePlan_tuple_def junk_filtered_def after_junk_filter_def ExecFilterJunk_def
        call_receiveSlot_def Let_def split: option.splits)

lemmas run_defs =
  run_outcome_def ExecutePlan_def ExecutePlan_loop.simps ExecutePlan_tuple_def tamper_def
  slot_getattr_def rand_def srand_time_def emit_def ExecProcNode_def ExecShutdownNode_def
  ExecFilterJunk_def call_receiveSlot_def DatumGetInt32_def Int32GetDatum_def Let_def
  rows_of_def accept_all_def

lemmas scenario_defs =
  scenario_globals_def PG_init_def DefineCustomIntVariable_def scenario_conf_def boot_globals_def
  INT_MAX_def scenario_loop_state_def scenario_estate_def scenario_host_def

section \<open>The loop\<close>

lemma ExecutePlan_loop_exhausted:
  assumes "next_tuple planstate (pulled (ls_host s)) = None"
  shows "ExecutePlan_loop g planstate operation sendTuples numberTuples dest s =
     Some (Inr (s\<lparr>ls_host := ExecShutdownNode planstate (ls_host (after_pull planstate s))\<rparr>))"
  using assms
  by (subst ExecutePlan_loop.simps) (simp add: after_pull_def ExecProcNode_def emit_def Let_def)

lemma ExecutePlan_loop_tuple:
  assumes "next_tuple planstate (pulled (ls_host s)) = Some slot"
  shows "ExecutePlan_loop g planstate operation sendTuples numberTuples dest s =
     (case ExecutePlan_tuple g operation sendTuples numberTuples dest slot
             (after_pull planstate s) of
        Inl e \<Rightarrow> Some (Inl e)
      | Inr (continue, s') \<Rightarrow>
          if continue
          then ExecutePlan_loop g planstate operation sendTuples numberTuples dest s'
          else Some (Inr s'))"
  using assms
  by (subst ExecutePlan_loop.simps) (simp add: after_pull_def ExecProcNode_def emit_def Let_def)

lemma after_pull_simps:
  "trace (ls_host (after_pull planstate s)) =
     trace (ls_host s) @ [E_ResetPerTupleExprContext,
                          E_ExecProcNode (next_tuple planstate (pulled (ls_host s)))]"
  "pulled (ls_host (after_pull planstate s)) = pulled (ls_host s) + 1"
  "received (ls_host (after_pull planstate s)) = received (ls_host s)"
  "rand_calls (ls_host (after_pull planstate s)) = rand_calls (ls_host s)"
  "rand_seq (ls_host (after_pull planstate s)) = rand_seq (ls_host s)"
  "ls_estate (after_pull planstate s) = ls_estate s"
  "current_tuple_count (after_pull planstate s) = current_tuple_count s"
  by (simp_all add: after_pull_def ExecProcNode_def emit_def Let_def)

text \<open>
  A proof rule for the loop: a property of the start state and the result holds of
  every run that returns when each way of leaving the loop establishes it and a pass
  that goes on preserves it.
\<close>

lemma ExecutePlan_loop_rule:
  assumes run: "ExecutePlan_loop g planstate operation sendTuples numberTuples dest s = Some r"
    and exhausted: "\<And>s. next_tuple planstate (pulled (ls_host s)) = None \<Longrightarrow>
        Q s (Inr (s\<lparr>ls_host := ExecShutdownNode planstate (ls_host (after_pull planstate s))\<rparr>))"
    and failed: "\<And>s slot e. next_tuple planstate (pulled (ls_host s)) = Some slot \<Longrightarrow>
        ExecutePlan_tuple g operation sendTuples numberTuples dest slot (after_pull planstate s)
          = Inl e \<Longrightarrow> Q s (Inl e)"
    and left: "\<And>s slot s'. next_tuple planstate (pulled (ls_host s)) = Some slot \<Longrightarrow>
        ExecutePlan_tuple g operation sendTuples numberTuples dest slot (after_pull planstate s)
          = Inr (False, s') \<Longrightarrow> Q s (Inr s')"
    and goes_on: "\<And>s slot s' r. next_tuple planstate (pulled (ls_host s)) = Some slot \<Longrightarrow>
        ExecutePlan_tuple g operation sendTuples numberTuples dest slot (after_pull planstate s)
          = Inr (True, s') \<Longrightarrow> Q s' r \<Longrightarrow> Q s r"
  shows "Q s r"
proof -
  define P where "P = (\<lambda>g' planstate' operation' sendTuples' numberTuples' dest' s r.
     g' = g \<and> planstate' = planstate \<and> operation' = operation \<and> sendTuples' = sendTuples
       \<and> numberTuples' = numberTuples \<and> dest' = dest \<longrightarrow> Q s r)"
  have "P g planstate operation sendTuples numberTuples dest s r"
    using run
  proof (induct rule: ExecutePlan_loop.raw_induct[rotated 1, consumes 1])
    case (1 loop g' planstate' operation' sendTuples' numberTuples' dest' s r)
    show ?case
      unfolding P_def
    proof (intro impI, elim conjE)
      assume eqs: "g' = g" "planstate' = planstate" "operation' = operation"
        "sendTuples' = sendTuples" "numberTuples' = numberTuples" "dest' = dest"
      note body = 1(2)[unfolded eqs]
      show "Q s r"
      proof (cases "next_tuple planstate (pulled (ls_host s))")
        case None
        with body have "r = Inr (s\<lparr>ls_host :=
            ExecShutdownNode planstate (ls_host (after_pull planstate s))\<rparr>)"
          by (auto simp: after_pull_def ExecProcNode_def emit_def Let_def)
        with exhausted[OF None] show ?thesis by simp
      next
        case (Some slot)
        from body Some have body':
          "(case ExecutePlan_tuple g operation sendTuples numberTuples dest slot
                   (after_pull planstate s) of
              Inl e \<Rightarrow> Some (Inl e)
            | Inr (continue, s') \<Rightarrow>
                if continue then loop g planstate operation sendTuples numberTuples dest s'
                else Some (Inr s')) = Some r"
          by (simp add: after_pull_def ExecProcNode_def emit_def Let_def)
        show ?thesis
        proof (cases "ExecutePlan_tuple g operation sendTuples numberTuples dest slot
                        (after_pull planstate s)")
          case (Inl e)
          with body' have "r = Inl e" by simp
          with failed[OF Some Inl] show ?thesis by simp
        next
          case (Inr p)
          obtain c s' where p: "p = (c, s')" by (cases p)
          show ?thesis
          proof (cases c)
            case False
            with Inr p have t: "ExecutePlan_tuple g operation sendTuples numberTuples dest slot
                        (after_pull planstate s) = Inr (False, s')" by simp
            with body' have "r = Inr s'" by simp
            with left[OF Some t] show ?thesis by simp
          next
            case True
            with Inr p have t: "ExecutePlan_tuple g operation sendTuples numberTuples dest slot
                        (after_pull planstate s) = Inr (True, s')" by simp
            with body'
            have "loop g planstate operation sendTuples numberTuples dest s' = Some r" by simp
            from 1(1)[OF this] have "Q s' r" by (simp add: P_def)
            with goes_on[OF Some t] show ?thesis .
          qed
        qed
      qed
    qed
  qed
  then show ?thesis by (simp add: P_def)
qed

lemma loop_estate:
  assumes "ExecutePlan_loop g planstate operation sendTuples numberTuples dest s = Some (Inr s')"
  shows "es_top_eflags (ls_estate s') = es_top_eflags (ls_estate s)
       \<and> es_junkFilter (ls_estate s') = es_junkFilter (ls_estate s)"
proof -
  define Q where "Q = (\<lambda>(s :: loop_state) (r :: failure + loop_state).
     case r of Inl e \<Rightarrow> True
     | Inr s' \<Rightarrow> es_top_eflags (ls_estate s') = es_top_eflags (ls_estate s)
                \<and> es_junkFilter (ls_estate s') = es_junkFilter (ls_estate s))"
  have "Q s (Inr s')"
  proof (rule ExecutePlan_loop_rule[OF assms])
    fix s :: loop_state
    show "Q s (Inr (s\<lparr>ls_host := ExecShutdownNode planstate (ls_host (after_pull planstate s))\<rparr>))"
      by (simp add: Q_def)
  next
    fix s :: loop_state and e :: failure
    show "Q s (Inl e)" by (simp add: Q_def)
  next
    fix s :: loop_state and slot s'
    assume "ExecutePlan_tuple g operation sendTuples numberTuples dest slot (after_pull planstate s)
          = Inr (False, s')"
    from tuple_estate[OF this] show "Q s (Inr s')"
      by (simp add: Q_def after_pull_simps)
  next
    fix s :: loop_state and slot s' r
    assume "ExecutePlan_tuple g operation sendTuples numberTuples dest slot (after_pull planstate s)
          = Inr (True, s')" and "Q s' r"
    with tuple_estate[OF this(1)] show "Q s r"
      by (cases r) (simp_all add: Q_def after_pull_simps)
  qed
  then show ?thesis by (simp add: Q_def)
qed

lemma loop_trace:
  assumes "ExecutePlan_loop g planstate operation sendTuples numberTuples dest s = Some r"
  shows "\<exists>evs tl. trace (loop_host r) = trace (ls_host s) @ evs @ tl \<and> list_all body_event evs
           \<and> (tl = [] \<or> tl = [E_ResetPerTupleExprContext, E_ExecProcNode None, E_ExecShutdownNode])"
proof -
  define Q where "Q = (\<lambda>(s :: loop_state) (r :: failure + loop_state).
    \<exists>evs tl. trace (loop_host r) = trace (ls_host s) @ evs @ tl \<and> list_all body_event evs
      \<and> (tl = [] \<or> tl = [E_ResetPerTupleExprContext, E_ExecProcNode None, E_ExecShutdownNode]))"
  have pull: "trace (tuple_host t) = trace (ls_host (after_pull planstate s)) @ evs
      \<Longrightarrow> list_all body_event evs \<Longrightarrow> next_tuple planstate (pulled (ls_host s)) = Some slot
      \<Longrightarrow> \<exists>evs'. trace (tuple_host t) = trace (ls_host s) @ evs' \<and> list_all body_event evs'"
    for t s evs slot
    by (simp add: after_pull_simps)
  have "Q s r"
  proof (rule ExecutePlan_loop_rule[OF assms])
    fix s :: loop_state
    assume "next_tuple planstate (pulled (ls_host s)) = None"
    then show "Q s (Inr (s\<lparr>ls_host :=
        ExecShutdownNode planstate (ls_host (after_pull planstate s))\<rparr>))"
      unfolding Q_def
      by (intro exI[of _ "[]"]
            exI[of _ "[E_ResetPerTupleExprContext, E_ExecProcNode None, E_ExecShutdownNode]"])
         (simp add: loop_host_def ExecShutdownNode_def emit_def after_pull_simps)
  next
    fix s :: loop_state and slot e
    assume n: "next_tuple planstate (pulled (ls_host s)) = Some slot"
      and t: "ExecutePlan_tuple g operation sendTuples numberTuples dest slot
                (after_pull planstate s) = Inl e"
    from tuple_trace[of g operation sendTuples numberTuples dest slot "after_pull planstate s"]
    obtain evs where "trace (tuple_host (Inl e)) = trace (ls_host (after_pull planstate s)) @ evs"
      "list_all body_event evs" unfolding t by blast
    from pull[OF this n] obtain evs' where
      "trace (tuple_host (Inl e)) = trace (ls_host s) @ evs'" "list_all body_event evs'" by blast
    then show "Q s (Inl e)"
      unfolding Q_def
      by (intro exI[of _ evs'] exI[of _ "[]"])
         (simp add: loop_host_def tuple_host_def split: prod.splits)
  next
    fix s :: loop_state and slot s'
    assume n: "next_tuple planstate (pulled (ls_host s)) = Some slot"
      and t: "ExecutePlan_tuple g operation sendTuples numberTuples dest slot
                (after_pull planstate s) = Inr (False, s')"
    from tuple_trace[of g operation sendTuples numberTuples dest slot "after_pull planstate s"]
    obtain evs where
      "trace (tuple_host (Inr (False, s'))) = trace (ls_host (after_pull planstate s)) @ evs"
      "list_all body_event evs" unfolding t by blast
    from pull[OF this n] obtain evs' where
      "trace (tuple_host (Inr (False, s'))) = trace (ls_host s) @ evs'" "list_all body_event evs'"
      by blast
    then show "Q s (Inr s')"
      unfolding Q_def
      by (intro exI[of _ evs'] exI[of _ "[]"]) (simp add: loop_host_def tuple_host_def)
  next
    fix s :: loop_state and slot s' r
    assume n: "next_tuple planstate (pulled (ls_host s)) = Some slot"
      and t: "ExecutePlan_tuple g operation sendTuples numberTuples dest slot
                (after_pull planstate s) = Inr (True, s')"
      and ih: "Q s' r"
    from tuple_trace[of g operation sendTuples numberTuples dest slot "after_pull planstate s"]
    obtain evs where
      "trace (tuple_host (Inr (True, s'))) = trace (ls_host (after_pull planstate s)) @ evs"
      "list_all body_event evs" unfolding t by blast
    from pull[OF this n] obtain evs' where e:
      "trace (tuple_host (Inr (True, s'))) = trace (ls_host s) @ evs'" "list_all body_event evs'"
      by blast
    from ih obtain evs'' tl where e': "trace (loop_host r) = trace (ls_host s') @ evs'' @ tl"
      "list_all body_event evs''"
      "tl = [] \<or> tl = [E_ResetPerTupleExprContext, E_ExecProcNode None, E_ExecShutdownNode]"
      unfolding Q_def by blast
    from e e' show "Q s r"
      unfolding Q_def
      by (intro exI[of _ "evs' @ evs''"] exI[of _ tl]) (simp add: tuple_host_def)
  qed
  then show ?thesis by (simp add: Q_def)
qed


lemma ExecutePlan_stages:
  "ExecutePlan g estate planstate use_parallel_mode operation sendTuples numberTuples direction
     dest h =
     (case ExecutePlan_loop g planstate operation sendTuples numberTuples dest
             (loop_entry estate use_parallel_mode numberTuples direction h) of
        None \<Rightarrow> None
      | Some (Inl e) \<Rightarrow> Some (Inl e)
      | Some (Inr s) \<Rightarrow> Some (Inr (loop_exit planstate use_parallel_mode numberTuples s)))"
  by (cases "numberTuples = 0"; cases use_parallel_mode)
     (simp_all add: ExecutePlan_def loop_entry_def loop_exit_def Let_def rand_def
        split: option.splits sum.splits prod.splits)

lemma body_event_count:
  assumes "list_all body_event evs"
  shows "count_list evs E_ExecShutdownNode = 0" and "E_ExecProcNode None \<notin> set evs"
    and "filter delegation evs = []"
proof -
  from assms have a: "\<And>e. e \<in> set evs \<Longrightarrow> body_event e" by (simp add: list_all_iff)
  from a[of E_ExecShutdownNode] show "count_list evs E_ExecShutdownNode = 0"
    by (auto simp: count_list_0_iff)
  from a[of "E_ExecProcNode None"] show "E_ExecProcNode None \<notin> set evs" by auto
  have "\<not> delegation e" if "e \<in> set evs" for e
    using a[OF that] by (cases e rule: body_event.cases) simp_all
  then show "filter delegation evs = []" by (simp add: filter_empty_conv)
qed

lemma loop_entry_simps:
  "trace (ls_host (loop_entry estate use_parallel_mode numberTuples direction h)) = trace h @
     (if numberTuples = 0 \<and> use_parallel_mode then [E_EnterParallelMode] else [])"
  "pulled (ls_host (loop_entry estate use_parallel_mode numberTuples direction h)) = pulled h"
  "received (ls_host (loop_entry estate use_parallel_mode numberTuples direction h)) = received h"
  "rand_calls (ls_host (loop_entry estate use_parallel_mode numberTuples direction h)) = 1"
  "rand_seq (ls_host (loop_entry estate use_parallel_mode numberTuples direction h)) = rand_seq h"
  "ls_estate (loop_entry estate use_parallel_mode numberTuples direction h)
     = estate\<lparr>es_direction := direction\<rparr>"
  "current_tuple_count (loop_entry estate use_parallel_mode numberTuples direction h) = 0"
  by (simp_all add: loop_entry_def rand_def srand_time_def emit_def)

lemma loop_exit_simps:
  "fst (loop_exit planstate use_parallel_mode numberTuples s) = ls_estate s"
  "trace (snd (loop_exit planstate use_parallel_mode numberTuples s)) = trace (ls_host s)
     @ (if EXEC_FLAG_BACKWARD \<in> es_top_eflags (ls_estate s) then [] else [E_ExecShutdownNode])
     @ (if numberTuples = 0 \<and> use_parallel_mode then [E_ExitParallelMode] else [])"
  "pulled (snd (loop_exit planstate use_parallel_mode numberTuples s)) = pulled (ls_host s)"
  "received (snd (loop_exit planstate use_parallel_mode numberTuples s)) = received (ls_host s)"
  "rand_calls (snd (loop_exit planstate use_parallel_mode numberTuples s))
     = rand_calls (ls_host s)"
  by (simp_all add: loop_exit_def ExecShutdownNode_def emit_def Let_def)

lemma ExecutePlan_returns:
  assumes "ExecutePlan g estate planstate use_parallel_mode operation sendTuples numberTuples
             direction dest h = Some (Inr (estate', h'))"
  obtains s' where
    "ExecutePlan_loop g planstate operation sendTuples numberTuples dest
       (loop_entry estate use_parallel_mode numberTuples direction h) = Some (Inr s')"
    "estate' = fst (loop_exit planstate use_parallel_mode numberTuples s')"
    "h' = snd (loop_exit planstate use_parallel_mode numberTuples s')"
proof (cases "ExecutePlan_loop g planstate operation sendTuples numberTuples dest
       (loop_entry estate use_parallel_mode numberTuples direction h)")
  case None
  with assms show ?thesis by (simp add: ExecutePlan_stages)
next
  case (Some r)
  show ?thesis
  proof (cases r)
    case (Inl e)
    with Some assms show ?thesis by (simp add: ExecutePlan_stages)
  next
    case (Inr s')
    with Some assms have "loop_exit planstate use_parallel_mode numberTuples s' = (estate', h')"
      by (simp add: ExecutePlan_stages)
    then have "estate' = fst (loop_exit planstate use_parallel_mode numberTuples s')"
      "h' = snd (loop_exit planstate use_parallel_mode numberTuples s')"
      by simp_all
    with Some Inr that show ?thesis by simp
  qed
qed

lemma ExecutePlan_trace:
  assumes "ExecutePlan g estate planstate use_parallel_mode operation sendTuples numberTuples
             direction dest h = Some (Inr (estate', h'))"
  shows "\<exists>evs tl. new_events h h' =
             (if numberTuples = 0 \<and> use_parallel_mode then [E_EnterParallelMode] else [])
             @ evs @ tl
             @ (if EXEC_FLAG_BACKWARD \<in> es_top_eflags estate then [] else [E_ExecShutdownNode])
             @ (if numberTuples = 0 \<and> use_parallel_mode then [E_ExitParallelMode] else [])
           \<and> list_all body_event evs
           \<and> (tl = [] \<or> tl = [E_ResetPerTupleExprContext, E_ExecProcNode None, E_ExecShutdownNode])"
proof -
  let ?s0 = "loop_entry estate use_parallel_mode numberTuples direction h"
  from assms obtain s' where
    l: "ExecutePlan_loop g planstate operation sendTuples numberTuples dest ?s0 = Some (Inr s')"
    and x: "h' = snd (loop_exit planstate use_parallel_mode numberTuples s')"
    by (rule ExecutePlan_returns)
  from loop_trace[OF l] obtain evs tl where
    t: "trace (ls_host s') = trace (ls_host ?s0) @ evs @ tl" "list_all body_event evs"
       "tl = [] \<or> tl = [E_ResetPerTupleExprContext, E_ExecProcNode None, E_ExecShutdownNode]"
    unfolding loop_host_def by auto
  from loop_estate[OF l] have f: "es_top_eflags (ls_estate s') = es_top_eflags estate"
    by (simp add: loop_entry_simps)
  have "new_events h h' =
             (if numberTuples = 0 \<and> use_parallel_mode then [E_EnterParallelMode] else [])
             @ evs @ tl
             @ (if EXEC_FLAG_BACKWARD \<in> es_top_eflags estate then [] else [E_ExecShutdownNode])
             @ (if numberTuples = 0 \<and> use_parallel_mode then [E_ExitParallelMode] else [])"
    unfolding new_events_def x loop_exit_simps t(1) loop_entry_simps f by simp
  with t(2,3) show ?thesis by blast
qed







text \<open>
  With a quota, the loop returns after as many passes as the quota still allows, when
  the plan yields that many rows, each can be perturbed, and the receiver takes all but
  possibly the last of them.
\<close>

lemma loop_quota:
  assumes "unat (current_tuple_count s) + m = unat numberTuples" and "0 < m"
    and "\<forall>k<m. \<exists>slot. next_tuple planstate (pulled (ls_host s) + k) = Some slot
                   \<and> perturbable g operation (junk_filtered estate slot)"
    and "\<forall>hist slot. length hist + 1 < length (received (ls_host s)) + m
                   \<longrightarrow> receiveSlot dest hist slot"
    and "es_junkFilter (ls_estate s) = es_junkFilter estate"
  shows "\<exists>s'. ExecutePlan_loop g planstate operation True numberTuples dest s = Some (Inr s')
           \<and> length (received (ls_host s')) = length (received (ls_host s)) + m
           \<and> pulled (ls_host s') = pulled (ls_host s) + m"
  using assms
proof (induction m arbitrary: s)
  case 0
  then show ?case by simp
next
  case (Suc m)
  let ?s1 = "after_pull planstate s"
  let ?c = "current_tuple_count s"
  from Suc.prems(3) obtain slot where
    n: "next_tuple planstate (pulled (ls_host s)) = Some slot"
    and p: "perturbable g operation (junk_filtered estate slot)"
    by force
  have j: "junk_filtered (ls_estate ?s1) slot = junk_filtered estate slot"
    using Suc.prems(5) by (simp add: after_pull_simps junk_filtered_def)
  from p have "perturbable g operation (junk_filtered (ls_estate ?s1) slot)"
    by (simp add: j)
  from tuple_forwards[OF this, of numberTuples dest] obtain out s2 where
    t: "ExecutePlan_tuple g operation True numberTuples dest slot ?s1
          = Inr (receiveSlot dest (received (ls_host s)) out
                   \<and> \<not> (numberTuples \<noteq> 0 \<and> numberTuples = ?c + 1), s2)"
    and r2: "received (ls_host s2) = received (ls_host s) @ [out]"
    and p2: "pulled (ls_host s2) = Suc (pulled (ls_host s))"
    and j2: "es_junkFilter (ls_estate s2) = es_junkFilter estate"
    and c2: "receiveSlot dest (received (ls_host s)) out \<longrightarrow> current_tuple_count s2 = ?c + 1"
    using Suc.prems(5) by (auto simp add: after_pull_simps)
  have lt: "unat ?c < unat numberTuples" using Suc.prems(1) by simp
  have u: "unat (?c + 1) = unat ?c + 1" using lt by (rule unat_succ_below)
  show ?case
  proof (cases "m = 0")
    case True
    with Suc.prems(1) u have "unat (?c + 1) = unat numberTuples" by simp
    then have "numberTuples = ?c + 1" by (simp add: word_unat_eq_iff)
    moreover from lt have "numberTuples \<noteq> 0" by (auto simp add: unat_eq_0)
    ultimately have "ExecutePlan_tuple g operation True numberTuples dest slot ?s1
          = Inr (False, s2)" using t by simp
    then have "ExecutePlan_loop g planstate operation True numberTuples dest s = Some (Inr s2)"
      by (simp add: ExecutePlan_loop_tuple[OF n])
    with r2 p2 True show ?thesis by simp
  next
    case False
    then have "length (received (ls_host s)) + 1 < length (received (ls_host s)) + Suc m"
      by simp
    with Suc.prems(4) have ok: "receiveSlot dest (received (ls_host s)) out" by blast
    from Suc.prems(1) u False have "unat (?c + 1) \<noteq> unat numberTuples" by simp
    then have "numberTuples \<noteq> ?c + 1" by auto
    with t ok have "ExecutePlan_tuple g operation True numberTuples dest slot ?s1
          = Inr (True, s2)" by simp
    then have l: "ExecutePlan_loop g planstate operation True numberTuples dest s
        = ExecutePlan_loop g planstate operation True numberTuples dest s2"
      by (simp add: ExecutePlan_loop_tuple[OF n])
    from c2 ok have c: "current_tuple_count s2 = ?c + 1" by simp
    have a1: "unat (current_tuple_count s2) + m = unat numberTuples"
      using Suc.prems(1) u c by simp
    have a2: "0 < m" using False by simp
    have a3: "\<forall>k<m. \<exists>slot. next_tuple planstate (pulled (ls_host s2) + k) = Some slot
                   \<and> perturbable g operation (junk_filtered estate slot)"
    proof (intro allI impI)
      fix k assume "k < m"
      then have "Suc k < Suc m" by simp
      with Suc.prems(3) have "\<exists>slot. next_tuple planstate (pulled (ls_host s) + Suc k) = Some slot
                   \<and> perturbable g operation (junk_filtered estate slot)" by blast
      then show "\<exists>slot. next_tuple planstate (pulled (ls_host s2) + k) = Some slot
                   \<and> perturbable g operation (junk_filtered estate slot)"
        by (simp add: p2)
    qed
    have a4: "\<forall>hist slot. length hist + 1 < length (received (ls_host s2)) + m
                   \<longrightarrow> receiveSlot dest hist slot"
      using Suc.prems(4) by (simp add: r2)
    from Suc.IH[OF a1 a2 a3 a4 j2] obtain s' where
      "ExecutePlan_loop g planstate operation True numberTuples dest s2 = Some (Inr s')"
      "length (received (ls_host s')) = length (received (ls_host s2)) + m"
      "pulled (ls_host s') = pulled (ls_host s2) + m" by blast
    with l r2 p2 show ?thesis by simp
  qed
qed


section \<open>The hook around the loop\<close>

lemma sentinel_ExecutorRun_stages:
  assumes "qd_estate qd = Some estate" "EXEC_FLAG_EXPLAIN_ONLY \<notin> es_top_eflags estate"
  shows "sentinel_ExecutorRun g (Some qd) direction count execute_once h =
     (case (if direction \<noteq> NoMovementScanDirection
            then ExecutePlan g (estate\<lparr>es_processed := 0\<rparr>) (qd_planstate qd)
                   (parallelModeNeeded (qd_plannedstmt qd)) (qd_operation qd) (sends_tuples qd)
                   count direction (qd_dest qd) (hook_entry qd estate h)
            else Some (Inr (estate\<lparr>es_processed := 0\<rparr>, hook_entry qd estate h))) of
        None \<Rightarrow> None
      | Some (Inl e) \<Rightarrow> Some (Inl e)
      | Some (Inr r) \<Rightarrow> Some (Inr (hook_exit qd (CurrentMemoryContext h) r)))"
proof (cases "direction = NoMovementScanDirection")
  case True
  with assms show ?thesis
    by (simp add: sentinel_ExecutorRun_def Assert_def hook_entry_def hook_exit_def
          sends_tuples_def MemoryContextSwitchTo_def Let_def)
next
  case False
  let ?run = "ExecutePlan g (estate\<lparr>es_processed := 0\<rparr>) (qd_planstate qd)
                   (parallelModeNeeded (qd_plannedstmt qd)) (qd_operation qd) (sends_tuples qd)
                   count direction (qd_dest qd) (hook_entry qd estate h)"
  show ?thesis
  proof (cases ?run)
    case None
    with assms False show ?thesis
      by (simp add: sentinel_ExecutorRun_def Assert_def hook_entry_def
            sends_tuples_def MemoryContextSwitchTo_def Let_def)
  next
    case (Some r)
    show ?thesis
    proof (cases r)
      case (Inl e)
      with Some assms False show ?thesis
        by (simp add: sentinel_ExecutorRun_def Assert_def hook_entry_def
              sends_tuples_def MemoryContextSwitchTo_def Let_def)
    next
      case (Inr p)
      obtain estate' h' where p: "p = (estate', h')" by (cases p)
      from Some Inr p assms False show ?thesis
        by (simp add: sentinel_ExecutorRun_def Assert_def hook_entry_def hook_exit_def
              sends_tuples_def MemoryContextSwitchTo_def Let_def)
    qed
  qed
qed

lemma sentinel_ExecutorRun_refused:
  assumes "queryDesc = None \<or> (\<exists>qd. queryDesc = Some qd \<and> (qd_estate qd = None
      \<or> (\<exists>estate. qd_estate qd = Some estate \<and> EXEC_FLAG_EXPLAIN_ONLY \<in> es_top_eflags estate)))"
  shows "sentinel_ExecutorRun g queryDesc direction count execute_once h
           = Some (Inl (FailedAssertion, h))"
  using assms
  by (auto simp add: sentinel_ExecutorRun_def Assert_def)

lemma hook_entry_trace:
  "trace (hook_entry qd estate h) = trace h @ [E_MemoryContextSwitchTo (es_query_cxt estate)]
     @ (if qd_totaltime qd then [E_InstrStartNode] else [])
     @ (if sends_tuples qd then [E_rStartup (qd_operation qd)] else [])"
  by (simp add: hook_entry_def MemoryContextSwitchTo_def emit_def Let_def)

lemma hook_exit_trace:
  "trace (snd (hook_exit qd oldcontext (estate, h))) = trace h
     @ (if sends_tuples qd then [E_rShutdown] else [])
     @ (if qd_totaltime qd then [E_InstrStopNode (es_processed estate)] else [])
     @ [E_MemoryContextSwitchTo oldcontext]"
  by (simp add: hook_exit_def MemoryContextSwitchTo_def emit_def Let_def)

lemma ExecutePlan_no_delegation:
  assumes "ExecutePlan g estate planstate use_parallel_mode operation sendTuples numberTuples
             direction dest h = Some r"
  shows "\<exists>evs. trace (final_host r) = trace h @ evs \<and> filter delegation evs = []"
proof -
  let ?s0 = "loop_entry estate use_parallel_mode numberTuples direction h"
  have t0: "\<exists>evs. trace (ls_host ?s0) = trace h @ evs \<and> filter delegation evs = []"
    by (simp add: loop_entry_def rand_def srand_time_def emit_def)
  from assms obtain r' where
    l: "ExecutePlan_loop g planstate operation sendTuples numberTuples dest ?s0 = Some r'"
    by (auto simp: ExecutePlan_stages split: option.splits)
  from loop_trace[OF l] obtain evs tl where
    t: "trace (loop_host r') = trace (ls_host ?s0) @ evs @ tl" "list_all body_event evs"
       "tl = [] \<or> tl = [E_ResetPerTupleExprContext, E_ExecProcNode None, E_ExecShutdownNode]"
    by blast
  from t(3) have "filter delegation tl = []" by auto
  with t(1) body_event_count(3)[OF t(2)] t0
  have t1: "\<exists>evs. trace (loop_host r') = trace h @ evs \<and> filter delegation evs = []"
    by auto
  show ?thesis
  proof (cases r')
    case (Inl e)
    with assms l have "r = Inl e" by (simp add: ExecutePlan_stages)
    with t1 Inl show ?thesis by (simp add: final_host_def loop_host_def split: prod.splits)
  next
    case (Inr s')
    with assms l have r: "r = Inr (loop_exit planstate use_parallel_mode numberTuples s')"
      by (simp add: ExecutePlan_stages)
    have "\<exists>evs. trace (snd (loop_exit planstate use_parallel_mode numberTuples s'))
            = trace (ls_host s') @ evs \<and> filter delegation evs = []"
      by (simp add: loop_exit_def ExecShutdownNode_def emit_def Let_def)
    with t1 Inr r show ?thesis
      by (auto simp add: final_host_def loop_host_def split: prod.splits)
  qed
qed

lemmas hook_defs =
  sentinel_ExecutorRun_def Assert_def MemoryContextSwitchTo_def scenario_query_def


section \<open>The claims\<close>

text \<open>
  Each claim is stated once, as a theorem about the definitions above; a theorem with
  hypotheses is followed by an instance at a concrete input.
\<close>

subsection \<open>C1: no abort\<close>

text \<open>
  C1, as the code has it. The loop has no abort response. A pass of the loop body on a
  row of the monitored relation (whose monitored position is one of its columns)
  returns normally: the row is counted and handed to the receiver like any other row,
  and the loop goes on unless the receiver declines or the quota is reached. The
  severity is fixed at initialization (\<^verbatim>\<open>ERROR\<close> when
  \<^verbatim>\<open>abort_statement_only\<close> is set, \<^verbatim>\<open>FATAL\<close> otherwise), but neither it
  nor \<^verbatim>\<open>abort_statement_only\<close> has any influence on the pass.
\<close>

theorem matching_row_is_not_aborted:
  assumes "from_monitored_relation g (junk_filtered (ls_estate s) slot)"
    and "has_monitored_column g (junk_filtered (ls_estate s) slot)"
  shows "\<exists>out s'.
           ExecutePlan_tuple g CMD_SELECT True numberTuples dest slot s
             = Inr (receiveSlot dest (received (ls_host s)) out
                      \<and> \<not> (numberTuples \<noteq> 0 \<and> numberTuples = current_tuple_count s + 1), s')
         \<and> received (ls_host s') = received (ls_host s) @ [out]
         \<and> es_processed (ls_estate s') = es_processed (ls_estate s) + 1
         \<and> elevel (PG_init conf g0) = (if abort_statement_only g0 then ERROR else FATAL)
         \<and> ExecutePlan_tuple (g\<lparr>abort_statement_only := b, elevel := l\<rparr>) CMD_SELECT True
              numberTuples dest slot s
             = ExecutePlan_tuple g CMD_SELECT True numberTuples dest slot s"
proof -
  have h: "received (after_junk_filter s) = received (ls_host s)"
    by (rule after_junk_filter_simps)
  have e: "elevel (PG_init conf g0) = (if abort_statement_only g0 then ERROR else FATAL)"
    by (simp add: PG_init_def Let_def)
  have i: "ExecutePlan_tuple (g\<lparr>abort_statement_only := b, elevel := l\<rparr>) CMD_SELECT True
              numberTuples dest slot s
             = ExecutePlan_tuple g CMD_SELECT True numberTuples dest slot s"
  proof -
    have "tamper (g\<lparr>abort_statement_only := b, elevel := l\<rparr>) = tamper g"
      by (intro ext) (simp add: tamper_def split: sum.splits prod.splits)
    then show ?thesis
      by (simp add: ExecutePlan_tuple_def)
  qed
  show ?thesis
    unfolding i ExecutePlan_tuple_select[OF tamper_matching[OF assms]]
    by (auto simp add: Let_def h e emit_def)
qed

text \<open>
  The claim as stated (a matching row terminates the statement before any further row
  is pulled or forwarded) fails under both severities: the run over a row of relation
  17 followed by a row of relation 42 returns normally, both rows are forwarded, and
  the plan is pulled until it is exhausted.
\<close>

theorem abort_never_raised:
  "elevel scenario_globals = FATAL
   \<and> run_outcome (ExecutePlan scenario_globals scenario_estate (rows_of [row_17_a, row_42])
        False CMD_SELECT True 0 ForwardScanDirection accept_all scenario_host)
     = Some (Inr (2, [row_17_a\<lparr>tts_values := [1, 97]\<rparr>, row_42], 3,
         [E_ResetPerTupleExprContext, E_ExecProcNode (Some row_17_a),
          E_receiveSlot (row_17_a\<lparr>tts_values := [1, 97]\<rparr>) True,
          E_ResetPerTupleExprContext, E_ExecProcNode (Some row_42), E_receiveSlot row_42 True,
          E_ResetPerTupleExprContext, E_ExecProcNode None, E_ExecShutdownNode,
          E_ExecShutdownNode]))
   \<and> elevel (PG_init scenario_conf (boot_globals\<lparr>abort_statement_only := True\<rparr>)) = ERROR
   \<and> run_outcome (ExecutePlan (PG_init scenario_conf (boot_globals\<lparr>abort_statement_only := True\<rparr>))
        scenario_estate (rows_of [row_17_a, row_42])
        False CMD_SELECT True 0 ForwardScanDirection accept_all scenario_host)
     = Some (Inr (2, [row_17_a\<lparr>tts_values := [1, 97]\<rparr>, row_42], 3,
         [E_ResetPerTupleExprContext, E_ExecProcNode (Some row_17_a),
          E_receiveSlot (row_17_a\<lparr>tts_values := [1, 97]\<rparr>) True,
          E_ResetPerTupleExprContext, E_ExecProcNode (Some row_42), E_receiveSlot row_42 True,
          E_ResetPerTupleExprContext, E_ExecProcNode None, E_ExecShutdownNode,
          E_ExecShutdownNode]))"
  by (simp add: run_defs scenario_defs row_17_a_def row_42_def)

theorem matching_row_is_not_aborted_witness:
  "\<exists>out s'.
      ExecutePlan_tuple scenario_globals CMD_SELECT True 0 accept_all row_17_a scenario_loop_state
        = Inr (True, s')
    \<and> received (ls_host s') = [out]
    \<and> es_processed (ls_estate s') = 1
    \<and> elevel (PG_init scenario_conf boot_globals) = FATAL
    \<and> ExecutePlan_tuple (scenario_globals\<lparr>abort_statement_only := True, elevel := ERROR\<rparr>)
         CMD_SELECT True 0 accept_all row_17_a scenario_loop_state
        = ExecutePlan_tuple scenario_globals CMD_SELECT True 0 accept_all row_17_a
            scenario_loop_state"
proof -
  have h1: "from_monitored_relation scenario_globals
              (junk_filtered (ls_estate scenario_loop_state) row_17_a)"
    by (simp add: from_monitored_relation_def junk_filtered_def row_17_a_def scenario_defs)
  have h2: "has_monitored_column scenario_globals
              (junk_filtered (ls_estate scenario_loop_state) row_17_a)"
    by (simp add: has_monitored_column_def junk_filtered_def row_17_a_def scenario_defs)
  have a: "abort_statement_only boot_globals = False"
    by (simp add: boot_globals_def)
  show ?thesis
    using matching_row_is_not_aborted[OF h1 h2, where numberTuples = 0 and dest = accept_all
            and conf = scenario_conf and ?g0.0 = boot_globals and b = True and l = ERROR]
    by (simp add: a accept_all_def scenario_loop_state_def scenario_estate_def scenario_host_def)
qed


subsection \<open>C2: a null at the monitored position\<close>

text \<open>
  C2 against the code. The null flag that \<^verbatim>\<open>slot_getattr\<close> reports is never
  tested: for a row of the monitored relation whose monitored attribute is null, the
  pass of the loop body still draws an offset and writes it (here 5, added to the zero
  datum of the null attribute) into \<^verbatim>\<open>tts_values[col_no-1]\<close>. The row that is
  forwarded differs from the row that was pulled; its null flag is still set.
\<close>

theorem null_attribute_is_overwritten:
  "tuple_outcome (ExecutePlan_tuple scenario_globals CMD_SELECT True 0 accept_all row_17_null
      (scenario_loop_state\<lparr>ls_host := host_rand_10\<rparr>))
   = Inr (True, 1, [row_17_null\<lparr>tts_values := [4, 5]\<rparr>])
   \<and> row_17_null\<lparr>tts_values := [4, 5]\<rparr> \<noteq> row_17_null
   \<and> slot_getattr row_17_null (col_no scenario_globals) = Inr (0, True)"
  by (simp add: tuple_outcome_def run_defs scenario_defs row_17_null_def host_rand_10_def)


subsection \<open>C3: releasing the plan's resources\<close>

text \<open>
  C3, as the code has it. Whenever \<^verbatim>\<open>ExecutePlan\<close> returns, the number of its
  \<^verbatim>\<open>ExecShutdownNode\<close> calls is: one inside the loop exactly when the plan was
  exhausted (a pull returned the null slot), plus one after the loop unless
  \<^verbatim>\<open>EXEC_FLAG_BACKWARD\<close> is set. So the release happens twice on exhaustion
  without the flag, once on exhaustion with the flag, once when the receiver declined
  or the quota was reached without the flag, and not at all in these two cases with the
  flag.
\<close>

theorem release_count:
  assumes "ExecutePlan g estate planstate use_parallel_mode operation sendTuples numberTuples
             direction dest h = Some (Inr (estate', h'))"
  shows "count_list (new_events h h') E_ExecShutdownNode =
           (if E_ExecProcNode None \<in> set (new_events h h') then 1 else 0)
           + (if EXEC_FLAG_BACKWARD \<in> es_top_eflags estate then 0 else 1)"
proof -
  from ExecutePlan_trace[OF assms] obtain evs tl where
    n: "new_events h h' =
             (if numberTuples = 0 \<and> use_parallel_mode then [E_EnterParallelMode] else [])
             @ evs @ tl
             @ (if EXEC_FLAG_BACKWARD \<in> es_top_eflags estate then [] else [E_ExecShutdownNode])
             @ (if numberTuples = 0 \<and> use_parallel_mode then [E_ExitParallelMode] else [])"
    and b: "list_all body_event evs"
    and tl: "tl = [] \<or> tl = [E_ResetPerTupleExprContext, E_ExecProcNode None, E_ExecShutdownNode]"
    by blast
  note c = body_event_count(1,2)[OF b]
  from tl show ?thesis
  proof
    assume "tl = []"
    with c show ?thesis unfolding n by simp
  next
    assume "tl = [E_ResetPerTupleExprContext, E_ExecProcNode None, E_ExecShutdownNode]"
    with c show ?thesis unfolding n by simp
  qed
qed

text \<open>
  The claim as stated (exactly one release on every ordinary termination) fails on an
  empty plan without the backward flag: the log holds two releases.
\<close>

theorem release_twice_on_exhaustion:
  "run_outcome (ExecutePlan scenario_globals scenario_estate (rows_of []) False CMD_SELECT True 0
      ForwardScanDirection accept_all scenario_host)
     = Some (Inr (0, [], 1,
         [E_ResetPerTupleExprContext, E_ExecProcNode None, E_ExecShutdownNode,
          E_ExecShutdownNode]))
   \<and> count_list (run_trace (ExecutePlan scenario_globals scenario_estate (rows_of []) False
        CMD_SELECT True 0 ForwardScanDirection accept_all scenario_host)) E_ExecShutdownNode = 2"
  by (simp add: run_trace_def run_defs scenario_defs)

theorem release_count_witness:
  "\<exists>estate' h'.
      ExecutePlan scenario_globals scenario_estate (rows_of [row_42, row_42]) False CMD_SELECT
        True 0 ForwardScanDirection (decline_at 1) scenario_host = Some (Inr (estate', h'))
    \<and> received h' = [row_42]
    \<and> E_ExecProcNode None \<notin> set (new_events scenario_host h')
    \<and> count_list (new_events scenario_host h') E_ExecShutdownNode = 1"
proof -
  obtain estate' h' where r:
    "ExecutePlan scenario_globals scenario_estate (rows_of [row_42, row_42]) False CMD_SELECT
        True 0 ForwardScanDirection (decline_at 1) scenario_host = Some (Inr (estate', h'))"
    and t: "trace h' = [E_ResetPerTupleExprContext, E_ExecProcNode (Some row_42),
                        E_receiveSlot row_42 False, E_ExecShutdownNode]"
    and f: "received h' = [row_42]"
    by (simp add: run_defs decline_at_def scenario_defs row_42_def)
  have "E_ExecProcNode None \<notin> set (new_events scenario_host h')"
    by (simp add: new_events_def t scenario_host_def)
  with release_count[OF r] r f show ?thesis
    by (simp add: scenario_estate_def)
qed

subsection \<open>C4: the hook installed before\<close>

text \<open>
  C4, as the code has it. The hook never hands the statement to anybody else: whatever
  a call of \<^verbatim>\<open>sentinel_ExecutorRun\<close> ends with, the calls it made contain
  neither a call of another run hook nor of the host's standard executor. The hook that
  was installed before is only kept: \<^verbatim>\<open>_PG_init\<close> saves it in
  \<^verbatim>\<open>prev_ExecutorRun_hook\<close> and installs its own, and \<^verbatim>\<open>_PG_fini\<close>
  puts the saved one back.
\<close>

theorem no_delegation:
  assumes "sentinel_ExecutorRun g queryDesc direction count execute_once h = Some r"
  shows "filter delegation (new_events h (final_host r)) = []
       \<and> prev_ExecutorRun_hook (PG_init conf g0) = ExecutorRun_hook g0
       \<and> ExecutorRun_hook (PG_init conf g0) = Some Sentinel_ExecutorRun
       \<and> ExecutorRun_hook (PG_fini (PG_init conf g0)) = ExecutorRun_hook g0"
proof -
  have init: "prev_ExecutorRun_hook (PG_init conf g0) = ExecutorRun_hook g0
       \<and> ExecutorRun_hook (PG_init conf g0) = Some Sentinel_ExecutorRun
       \<and> ExecutorRun_hook (PG_fini (PG_init conf g0)) = ExecutorRun_hook g0"
    by (simp add: PG_init_def PG_fini_def Let_def)
  have "\<exists>evs. trace (final_host r) = trace h @ evs \<and> filter delegation evs = []"
  proof (cases "queryDesc = None \<or> (\<exists>qd. queryDesc = Some qd \<and> (qd_estate qd = None
      \<or> (\<exists>estate. qd_estate qd = Some estate \<and> EXEC_FLAG_EXPLAIN_ONLY \<in> es_top_eflags estate)))")
    case True
    from sentinel_ExecutorRun_refused[OF True, of g direction count execute_once h] assms
    have "r = Inl (FailedAssertion, h)" by simp
    then show ?thesis by (simp add: final_host_def)
  next
    case False
    then obtain qd estate where q: "queryDesc = Some qd" "qd_estate qd = Some estate"
      "EXEC_FLAG_EXPLAIN_ONLY \<notin> es_top_eflags estate" by auto
    let ?h1 = "hook_entry qd estate h"
    let ?run = "if direction \<noteq> NoMovementScanDirection
            then ExecutePlan g (estate\<lparr>es_processed := 0\<rparr>) (qd_planstate qd)
                   (parallelModeNeeded (qd_plannedstmt qd)) (qd_operation qd) (sends_tuples qd)
                   count direction (qd_dest qd) ?h1
            else Some (Inr (estate\<lparr>es_processed := 0\<rparr>, ?h1))"
    from assms q obtain r' where run: "?run = Some r'"
      and r: "r = (case r' of Inl e \<Rightarrow> Inl e
                   | Inr p \<Rightarrow> Inr (hook_exit qd (CurrentMemoryContext h) p))"
      unfolding q(1) sentinel_ExecutorRun_stages[OF q(2,3)]
      by (auto split: option.splits sum.splits if_splits)
    have "\<exists>evs. trace (final_host r') = trace ?h1 @ evs \<and> filter delegation evs = []"
    proof (cases "direction = NoMovementScanDirection")
      case True
      with run show ?thesis by (auto simp: final_host_def)
    next
      case False
      with run ExecutePlan_no_delegation show ?thesis by simp
    qed
    then obtain evs where e: "trace (final_host r') = trace ?h1 @ evs" "filter delegation evs = []"
      by blast
    show ?thesis
    proof (cases r')
      case (Inl f)
      with e r show ?thesis
        by (auto simp: final_host_def hook_entry_trace split: prod.splits)
    next
      case (Inr p)
      obtain estate' h' where p: "p = (estate', h')" by (cases p)
      from e r Inr p hook_exit_trace[of qd "CurrentMemoryContext h" estate' h'] show ?thesis
        by (auto simp: final_host_def hook_entry_trace split: prod.splits)
    qed
  qed
  then have "filter delegation (new_events h (final_host r)) = []"
    by (auto simp: new_events_def)
  with init show ?thesis by simp
qed

text \<open>
  The claim as stated (the hook first delegates to the hook installed before it) fails
  when another hook was installed before the module was loaded: the statement is run by
  the module's own loop, and the log of the call holds no delegation.
\<close>

theorem hook_runs_the_statement_itself:
  "prev_ExecutorRun_hook layered_globals = Some (Foreign_ExecutorRun 7)
   \<and> run_outcome (sentinel_ExecutorRun layered_globals (Some (scenario_query [row_42]))
        ForwardScanDirection 0 True scenario_host)
     = Some (Inr (1, [row_42], 2,
         [E_MemoryContextSwitchTo 1, E_InstrStartNode, E_rStartup CMD_SELECT,
          E_ResetPerTupleExprContext, E_ExecProcNode (Some row_42), E_receiveSlot row_42 True,
          E_ResetPerTupleExprContext, E_ExecProcNode None, E_ExecShutdownNode,
          E_ExecShutdownNode, E_rShutdown, E_InstrStopNode 1, E_MemoryContextSwitchTo 0]))
   \<and> filter delegation (run_trace (sentinel_ExecutorRun layered_globals
        (Some (scenario_query [row_42])) ForwardScanDirection 0 True scenario_host)) = []"
  by (simp add: run_trace_def run_defs hook_defs scenario_defs layered_globals_def
        layered_boot_globals_def row_42_def)

theorem no_delegation_witness:
  "\<exists>r. sentinel_ExecutorRun layered_globals (Some (scenario_query [row_42]))
          ForwardScanDirection 0 True scenario_host = Some r
      \<and> filter delegation (new_events scenario_host (final_host r)) = []
      \<and> prev_ExecutorRun_hook (PG_init scenario_conf layered_boot_globals)
          = Some (Foreign_ExecutorRun 7)
      \<and> ExecutorRun_hook (PG_init scenario_conf layered_boot_globals)
          = Some Sentinel_ExecutorRun
      \<and> ExecutorRun_hook (PG_fini (PG_init scenario_conf layered_boot_globals))
          = Some (Foreign_ExecutorRun 7)"
proof -
  obtain r where r: "sentinel_ExecutorRun layered_globals (Some (scenario_query [row_42]))
          ForwardScanDirection 0 True scenario_host = Some r"
    by (simp add: run_defs hook_defs scenario_defs layered_globals_def
          layered_boot_globals_def row_42_def)
  have b: "ExecutorRun_hook layered_boot_globals = Some (Foreign_ExecutorRun 7)"
    by (simp add: layered_boot_globals_def)
  from no_delegation[OF r, where conf = scenario_conf and ?g0.0 = layered_boot_globals] r
  show ?thesis
    by (simp add: b)
qed


subsection \<open>C5: settings left at their defaults\<close>





subsection \<open>C6: the size of the perturbation\<close>

text \<open>
  C6 against the code. The offset is added to a 32-bit integer without a check of the
  range (line 132). For a row of the monitored relation that holds the largest 32-bit
  integer at the monitored position, and the offset 5, the value that is emitted is
  \<open>- 2147483644\<close>: it differs from the original by far more than 5.
\<close>

theorem noise_overflows_at_int_max:
  "tuple_outcome (ExecutePlan_tuple scenario_globals CMD_SELECT True 0 accept_all row_17_max
      (scenario_loop_state\<lparr>ls_host := host_rand_10\<rparr>))
   = Inr (True, 1, [row_17_max\<lparr>tts_values := [5, 18446744071562067972]\<rparr>])
   \<and> noise host_rand_10 = 5
   \<and> sint (monitored_value scenario_globals row_17_max) = 2147483647
   \<and> sint (monitored_value scenario_globals
        (row_17_max\<lparr>tts_values := [5, 18446744071562067972]\<rparr>)) = - 2147483644
   \<and> \<not> \<bar>sint (monitored_value scenario_globals
              (row_17_max\<lparr>tts_values := [5, 18446744071562067972]\<rparr>))
          - sint (monitored_value scenario_globals row_17_max)\<bar> \<le> 5"
  by (simp add: tuple_outcome_def run_defs scenario_defs row_17_max_def host_rand_10_def
        noise_def monitored_value_def)

text \<open>
  Away from the two ends of the range the code does what the claim says. For every row
  of the monitored relation whose monitored position is one of its columns, the value
  that is emitted is the original plus an offset between -5 and 5, as a 32-bit integer;
  it differs from the original by exactly that offset, so by at most 5, whenever the
  exact sum lies within the range of a signed 32-bit integer.
\<close>

lemma noise_is_added_modulo_2_32:
  assumes "from_monitored_relation g (junk_filtered (ls_estate s) slot)"
    and "has_monitored_column g (junk_filtered (ls_estate s) slot)"
  shows "\<exists>out continue s'.
           ExecutePlan_tuple g CMD_SELECT True numberTuples dest slot s = Inr (continue, s')
         \<and> received (ls_host s') = received (ls_host s) @ [out]
         \<and> - 5 \<le> noise (ls_host s) \<and> noise (ls_host s) \<le> 5
         \<and> monitored_value g out
             = monitored_value g (junk_filtered (ls_estate s) slot)
                 + word_of_int (noise (ls_host s))
         \<and> (- 2147483648 \<le> sint (monitored_value g (junk_filtered (ls_estate s) slot))
                                + noise (ls_host s)
              \<and> sint (monitored_value g (junk_filtered (ls_estate s) slot)) + noise (ls_host s)
                    \<le> 2147483647
              \<longrightarrow> sint (monitored_value g out)
                    - sint (monitored_value g (junk_filtered (ls_estate s) slot))
                   = noise (ls_host s)
                \<and> \<bar>sint (monitored_value g out)
                    - sint (monitored_value g (junk_filtered (ls_estate s) slot))\<bar> \<le> 5)"
proof -
  let ?slot = "junk_filtered (ls_estate s) slot"
  let ?v = "monitored_value g ?slot + word_of_int (noise (ls_host s))"
  let ?out = "?slot\<lparr>tts_values := (tts_values ?slot)[nat (col_no g - 1) := Int32GetDatum ?v]\<rparr>"
  have n: "noise (after_junk_filter s) = noise (ls_host s)"
    by (simp add: noise_def after_junk_filter_simps)
  have h: "received (after_junk_filter s) = received (ls_host s)"
    by (rule after_junk_filter_simps)
  have t: "tamper g ?slot (after_junk_filter s) =
             Inr (?out, (after_junk_filter s)\<lparr>rand_calls := rand_calls (after_junk_filter s) + 1\<rparr>)"
    using tamper_matching[OF assms, of "after_junk_filter s"] by (simp only: n)
  have out: "monitored_value g ?out = ?v"
    using assms(2) by (rule monitored_value_update)
  have r: "\<exists>continue s'.
           ExecutePlan_tuple g CMD_SELECT True numberTuples dest slot s = Inr (continue, s')
         \<and> received (ls_host s') = received (ls_host s) @ [?out]"
    unfolding ExecutePlan_tuple_select[OF t]
    by (auto simp add: Let_def h emit_def)
  have w: "sint ?v - sint (monitored_value g ?slot) = noise (ls_host s)
         \<and> \<bar>sint ?v - sint (monitored_value g ?slot)\<bar> \<le> 5"
    if "- 2147483648 \<le> sint (monitored_value g ?slot) + noise (ls_host s)"
      "sint (monitored_value g ?slot) + noise (ls_host s) \<le> 2147483647"
    using sint_add_small[OF that] noise_range[of "ls_host s"] by (simp add: abs_le_iff)
  from r obtain continue s' where r':
    "ExecutePlan_tuple g CMD_SELECT True numberTuples dest slot s = Inr (continue, s')"
    "received (ls_host s') = received (ls_host s) @ [?out]" by blast
  have c: "- 2147483648 \<le> sint (monitored_value g ?slot) + noise (ls_host s)
              \<and> sint (monitored_value g ?slot) + noise (ls_host s) \<le> 2147483647
              \<longrightarrow> sint (monitored_value g ?out) - sint (monitored_value g ?slot)
                   = noise (ls_host s)
                \<and> \<bar>sint (monitored_value g ?out) - sint (monitored_value g ?slot)\<bar> \<le> 5"
    unfolding out using w by blast
  from r' out c noise_range[of "ls_host s"] show ?thesis
    by blast
qed


lemma noise_is_added_modulo_2_32_instance:
  "\<exists>out continue s'.
      ExecutePlan_tuple scenario_globals CMD_SELECT True 0 accept_all row_17_a scenario_loop_state
        = Inr (continue, s')
    \<and> received (ls_host s') = [out]
    \<and> sint (monitored_value scenario_globals row_17_a) = 100
    \<and> noise scenario_host = - 2
    \<and> sint (monitored_value scenario_globals out) = 98"
proof -
  have h1: "from_monitored_relation scenario_globals
              (junk_filtered (ls_estate scenario_loop_state) row_17_a)"
    by (simp add: from_monitored_relation_def junk_filtered_def row_17_a_def scenario_defs)
  have h2: "has_monitored_column scenario_globals
              (junk_filtered (ls_estate scenario_loop_state) row_17_a)"
    by (simp add: has_monitored_column_def junk_filtered_def row_17_a_def scenario_defs)
  have j: "junk_filtered (ls_estate scenario_loop_state) row_17_a = row_17_a"
    by (simp add: junk_filtered_def scenario_loop_state_def scenario_estate_def)
  have v: "sint (monitored_value scenario_globals row_17_a) = 100"
    by (simp add: monitored_value_def DatumGetInt32_def row_17_a_def scenario_defs)
  have n: "noise (ls_host scenario_loop_state) = - 2" "noise scenario_host = - 2"
    by (simp_all add: noise_def scenario_loop_state_def scenario_host_def)
  have e: "received (ls_host scenario_loop_state) = []"
    by (simp add: scenario_loop_state_def scenario_host_def)
  from noise_is_added_modulo_2_32[OF h1 h2, where numberTuples = 0 and dest = accept_all]
  have "\<exists>out continue s'.
      ExecutePlan_tuple scenario_globals CMD_SELECT True 0 accept_all row_17_a scenario_loop_state
        = Inr (continue, s')
    \<and> received (ls_host s') = [out]
    \<and> sint (monitored_value scenario_globals out) = 98"
    unfolding j n e by (simp add: v) blast
  with v n show ?thesis by simp
qed


subsection \<open>C7: rows of other relations\<close>



subsection \<open>C8: the quota\<close>

text \<open>
  C8. Let a nonzero quota \<open>q\<close> be given to \<^verbatim>\<open>ExecutePlan\<close> for a statement that
  sends its rows, and let at least \<open>q\<close> rows be there to forward: the next \<open>q\<close>
  pulls yield rows, the perturbation step returns for each, and the receiver does not
  decline any of the first \<open>q - 1\<close> rows it is handed. Then \<^verbatim>\<open>ExecutePlan\<close>
  returns, and it returns normally; exactly \<open>q\<close> rows have been handed to the
  receiver, and the plan has been pulled exactly \<open>q\<close> times, so the loop ended
  right after the \<open>q\<close>-th row. This holds for plans that never run out of rows as
  well.
\<close>

theorem quota_is_enforced:
  assumes "numberTuples \<noteq> 0"
    and "\<forall>k < unat numberTuples. \<exists>slot. next_tuple planstate (pulled h + k) = Some slot
            \<and> perturbable g operation (junk_filtered estate slot)"
    and "\<forall>hist slot. length hist + 1 < length (received h) + unat numberTuples
            \<longrightarrow> receiveSlot dest hist slot"
  shows "\<exists>estate' h'.
           ExecutePlan g estate planstate use_parallel_mode operation True numberTuples direction
             dest h = Some (Inr (estate', h'))
         \<and> length (received h') = length (received h) + unat numberTuples
         \<and> pulled h' = pulled h + unat numberTuples"
proof -
  let ?s0 = "loop_entry estate use_parallel_mode numberTuples direction h"
  have a1: "unat (current_tuple_count ?s0) + unat numberTuples = unat numberTuples"
    by (simp add: loop_entry_simps)
  have a2: "0 < unat numberTuples" using assms(1) by (simp add: unat_gt_0)
  have a3: "\<forall>k<unat numberTuples. \<exists>slot. next_tuple planstate (pulled (ls_host ?s0) + k) = Some slot
                   \<and> perturbable g operation (junk_filtered estate slot)"
    using assms(2) by (simp add: loop_entry_simps)
  have a4: "\<forall>hist slot. length hist + 1 < length (received (ls_host ?s0)) + unat numberTuples
                   \<longrightarrow> receiveSlot dest hist slot"
    using assms(3) by (simp add: loop_entry_simps)
  have a5: "es_junkFilter (ls_estate ?s0) = es_junkFilter estate"
    by (simp add: loop_entry_simps)
  from loop_quota[OF a1 a2 a3 a4 a5] obtain s' where
    l: "ExecutePlan_loop g planstate operation True numberTuples dest ?s0 = Some (Inr s')"
    and r: "length (received (ls_host s')) = length (received (ls_host ?s0)) + unat numberTuples"
    and p: "pulled (ls_host s') = pulled (ls_host ?s0) + unat numberTuples"
    by blast
  show ?thesis
    by (intro exI[of _ "fst (loop_exit planstate use_parallel_mode numberTuples s')"]
          exI[of _ "snd (loop_exit planstate use_parallel_mode numberTuples s')"])
       (simp add: ExecutePlan_stages l prod_eq_iff loop_exit_simps r p loop_entry_simps)
qed


theorem quota_is_enforced_witness:
  "\<exists>estate' h'.
      ExecutePlan scenario_globals scenario_estate (endless row_17_a) False CMD_SELECT True 2
        ForwardScanDirection accept_all scenario_host = Some (Inr (estate', h'))
    \<and> length (received h') = 2
    \<and> pulled h' = 2"
proof -
  have h1: "(2 :: uint64) \<noteq> 0" by simp
  have p: "perturbable scenario_globals CMD_SELECT (junk_filtered scenario_estate row_17_a)"
    by (simp add: perturbable_def has_monitored_column_def junk_filtered_def row_17_a_def
          scenario_defs)
  have h2: "\<forall>k < unat (2 :: uint64).
      \<exists>slot. next_tuple (endless row_17_a) (pulled scenario_host + k) = Some slot
        \<and> perturbable scenario_globals CMD_SELECT (junk_filtered scenario_estate slot)"
    using p by (simp add: endless_def)
  have h3: "\<forall>hist slot. length hist + 1 < length (received scenario_host) + unat (2 :: uint64)
      \<longrightarrow> receiveSlot accept_all hist slot"
    by (simp add: accept_all_def)
  have s: "received scenario_host = []" "pulled scenario_host = 0"
    by (simp_all add: scenario_host_def)
  have u: "unat (2 :: uint64) = 2" by simp
  from quota_is_enforced[OF h1 h2 h3, of False ForwardScanDirection] show ?thesis
    unfolding s u by (simp add: numeral_2_eq_2)
qed


subsection \<open>C9: explain-only descriptors\<close>

text \<open>
  C9. Called on a descriptor whose executor state has \<^verbatim>\<open>EXEC_FLAG_EXPLAIN_ONLY\<close>
  set, the hook leaves with the failed assertion and the host exactly as it found it:
  no context switch, no instrumentation, no receiver start, no pull, no perturbation
  and no row sent. The assertion is the third thing the hook does, before any call into
  the host.
\<close>

theorem explain_only_refused:
  assumes "qd_estate qd = Some estate" and "EXEC_FLAG_EXPLAIN_ONLY \<in> es_top_eflags estate"
  shows "sentinel_ExecutorRun g (Some qd) direction count execute_once h
           = Some (Inl (FailedAssertion, h))"
  using assms by (simp add: sentinel_ExecutorRun_def Assert_def)


theorem explain_only_refused_witness:
  "sentinel_ExecutorRun scenario_globals
     (Some ((scenario_query [row_17_a])\<lparr>qd_estate := Some explain_only_estate\<rparr>))
     ForwardScanDirection 0 True scenario_host
   = Some (Inl (FailedAssertion, scenario_host))"
proof -
  have h1: "qd_estate ((scenario_query [row_17_a])\<lparr>qd_estate := Some explain_only_estate\<rparr>)
              = Some explain_only_estate"
    by simp
  have h2: "EXEC_FLAG_EXPLAIN_ONLY \<in> es_top_eflags explain_only_estate"
    by (simp add: explain_only_estate_def)
  show ?thesis
    using explain_only_refused[OF h1 h2] .
qed


subsection \<open>C10: no movement\<close>

text \<open>
  C10. Called with the scan direction \<^verbatim>\<open>NoMovementScanDirection\<close> on a
  descriptor that is not explain-only, the hook returns with the counter of processed
  rows at zero and never enters \<^verbatim>\<open>ExecutePlan\<close>: nothing is pulled, nothing
  is sent, the random generator is not touched. The calls it makes are, in this order:
  the switch to the query's memory context; \<^verbatim>\<open>InstrStartNode\<close> when the
  descriptor carries instrumentation; for a statement that emits rows the receiver's
  startup, directly followed by its shutdown; \<^verbatim>\<open>InstrStopNode\<close> with zero rows
  when the descriptor carries instrumentation; the switch back to the caller's context.
\<close>

theorem no_movement_skips_the_loop:
  assumes "qd_estate qd = Some estate" and "EXEC_FLAG_EXPLAIN_ONLY \<notin> es_top_eflags estate"
  shows "\<exists>h'. sentinel_ExecutorRun g (Some qd) NoMovementScanDirection count execute_once h
                = Some (Inr (estate\<lparr>es_processed := 0\<rparr>, h'))
           \<and> new_events h h' =
                [E_MemoryContextSwitchTo (es_query_cxt estate)]
                @ (if qd_totaltime qd then [E_InstrStartNode] else [])
                @ (if sends_tuples qd then [E_rStartup (qd_operation qd), E_rShutdown] else [])
                @ (if qd_totaltime qd then [E_InstrStopNode 0] else [])
                @ [E_MemoryContextSwitchTo (CurrentMemoryContext h)]
           \<and> pulled h' = pulled h \<and> received h' = received h
           \<and> rand_calls h' = rand_calls h"
proof -
  let ?h' = "snd (hook_exit qd (CurrentMemoryContext h)
                (estate\<lparr>es_processed := 0\<rparr>, hook_entry qd estate h))"
  have r: "sentinel_ExecutorRun g (Some qd) NoMovementScanDirection count execute_once h
                = Some (Inr (estate\<lparr>es_processed := 0\<rparr>, ?h'))"
    unfolding sentinel_ExecutorRun_stages[OF assms] by (simp add: hook_exit_def Let_def)
  have t: "new_events h ?h' =
                [E_MemoryContextSwitchTo (es_query_cxt estate)]
                @ (if qd_totaltime qd then [E_InstrStartNode] else [])
                @ (if sends_tuples qd then [E_rStartup (qd_operation qd), E_rShutdown] else [])
                @ (if qd_totaltime qd then [E_InstrStopNode 0] else [])
                @ [E_MemoryContextSwitchTo (CurrentMemoryContext h)]"
    unfolding new_events_def hook_exit_trace hook_entry_trace by simp
  have p: "pulled ?h' = pulled h \<and> received ?h' = received h \<and> rand_calls ?h' = rand_calls h"
    by (simp add: hook_exit_def hook_entry_def MemoryContextSwitchTo_def emit_def Let_def)
  from r t p show ?thesis by blast
qed


theorem no_movement_skips_the_loop_witness:
  "\<exists>h'. sentinel_ExecutorRun scenario_globals (Some (scenario_query [row_17_a]))
           NoMovementScanDirection 0 True scenario_host
          = Some (Inr (scenario_estate\<lparr>es_processed := 0\<rparr>, h'))
      \<and> new_events scenario_host h' =
           [E_MemoryContextSwitchTo 1, E_InstrStartNode, E_rStartup CMD_SELECT, E_rShutdown,
            E_InstrStopNode 0, E_MemoryContextSwitchTo 0]
      \<and> pulled h' = 0 \<and> received h' = [] \<and> rand_calls h' = 0"
proof -
  have h1: "qd_estate (scenario_query [row_17_a]) = Some scenario_estate"
    by (simp add: scenario_query_def)
  have h2: "EXEC_FLAG_EXPLAIN_ONLY \<notin> es_top_eflags scenario_estate"
    by (simp add: scenario_estate_def)
  show ?thesis
    using no_movement_skips_the_loop[OF h1 h2, of scenario_globals 0 True scenario_host]
    by (simp add: scenario_query_def sends_tuples_def scenario_estate_def scenario_host_def)
qed


section \<open>The scenario of the specification\<close>

text \<open>
  Relation 17, column 2; two rows of relation 17 with a row of relation 42 between
  them. The row of relation 42 passes unchanged, the second field of the rows of
  relation 17 becomes 100 - 3 and 200 - 4 under the generator of the scenario, and the
  counter of processed rows ends at 3.
\<close>

lemma scenario_run:
  "run_outcome (ExecutePlan scenario_globals scenario_estate
      (rows_of [row_17_a, row_42, row_17_b]) False CMD_SELECT True 0 ForwardScanDirection
      accept_all scenario_host)
   = Some (Inr (3, [row_17_a\<lparr>tts_values := [1, 97]\<rparr>, row_42,
                    row_17_b\<lparr>tts_values := [2, 196]\<rparr>], 4,
        [E_ResetPerTupleExprContext, E_ExecProcNode (Some row_17_a),
         E_receiveSlot (row_17_a\<lparr>tts_values := [1, 97]\<rparr>) True,
         E_ResetPerTupleExprContext, E_ExecProcNode (Some row_42), E_receiveSlot row_42 True,
         E_ResetPerTupleExprContext, E_ExecProcNode (Some row_17_b),
         E_receiveSlot (row_17_b\<lparr>tts_values := [2, 196]\<rparr>) True,
         E_ResetPerTupleExprContext, E_ExecProcNode None, E_ExecShutdownNode,
         E_ExecShutdownNode]))"
  by (simp add: run_defs scenario_defs row_17_a_def row_17_b_def row_42_def)

end
